theory Spec2Isabelle
  imports Complex_Main
begin

section \<open>Floating-point values\<close>

text \<open>
  The program computes on numpy arrays of binary64 numbers. A number is modelled as a
  finite real or one of the three special values. Arithmetic on finite values is exact
  (rounding and overflow of a finite operation are not modelled, and there is a single
  zero); the special values follow
  IEEE 754: NaN is absorbing and compares false with everything, opposite infinities
  cancel to NaN, zero times infinity is NaN, and a numpy division by zero yields an
  infinity or NaN instead of raising.
\<close>

datatype flt = Fin real | PInf | NInf | NaN

fun fneg :: "flt \<Rightarrow> flt" where
  "fneg (Fin x) = Fin (- x)"
| "fneg PInf = NInf"
| "fneg NInf = PInf"
| "fneg NaN = NaN"

fun fadd :: "flt \<Rightarrow> flt \<Rightarrow> flt" where
  "fadd NaN b = NaN"
| "fadd a NaN = NaN"
| "fadd (Fin x) (Fin y) = Fin (x + y)"
| "fadd PInf NInf = NaN"
| "fadd NInf PInf = NaN"
| "fadd PInf b = PInf"
| "fadd a PInf = PInf"
| "fadd NInf b = NInf"
| "fadd a NInf = NInf"

definition fsub :: "flt \<Rightarrow> flt \<Rightarrow> flt" where
  "fsub a b = fadd a (fneg b)"

fun fmul :: "flt \<Rightarrow> flt \<Rightarrow> flt" where
  "fmul NaN b = NaN"
| "fmul a NaN = NaN"
| "fmul (Fin x) (Fin y) = Fin (x * y)"
| "fmul PInf (Fin y) = (if y = 0 then NaN else if 0 < y then PInf else NInf)"
| "fmul NInf (Fin y) = (if y = 0 then NaN else if 0 < y then NInf else PInf)"
| "fmul (Fin x) PInf = (if x = 0 then NaN else if 0 < x then PInf else NInf)"
| "fmul (Fin x) NInf = (if x = 0 then NaN else if 0 < x then NInf else PInf)"
| "fmul PInf PInf = PInf"
| "fmul PInf NInf = NInf"
| "fmul NInf PInf = NInf"
| "fmul NInf NInf = PInf"

fun fdiv :: "flt \<Rightarrow> flt \<Rightarrow> flt" where
  "fdiv NaN b = NaN"
| "fdiv a NaN = NaN"
| "fdiv (Fin x) (Fin y) =
     (if y = 0 then (if x = 0 then NaN else if 0 < x then PInf else NInf)
      else Fin (x / y))"
| "fdiv (Fin x) PInf = Fin 0"
| "fdiv (Fin x) NInf = Fin 0"
| "fdiv PInf (Fin y) = (if 0 \<le> y then PInf else NInf)"
| "fdiv NInf (Fin y) = (if 0 \<le> y then NInf else PInf)"
| "fdiv PInf PInf = NaN"
| "fdiv PInf NInf = NaN"
| "fdiv NInf PInf = NaN"
| "fdiv NInf NInf = NaN"

text \<open>The comparison \<open>a < b\<close> of two floats.\<close>

fun fless :: "flt \<Rightarrow> flt \<Rightarrow> bool" where
  "fless NaN b = False"
| "fless a NaN = False"
| "fless (Fin x) (Fin y) = (x < y)"
| "fless (Fin x) PInf = True"
| "fless (Fin x) NInf = False"
| "fless PInf b = False"
| "fless NInf (Fin y) = True"
| "fless NInf PInf = True"
| "fless NInf NInf = False"

fun fabs :: "flt \<Rightarrow> flt" where
  "fabs (Fin x) = Fin \<bar>x\<bar>"
| "fabs PInf = PInf"
| "fabs NInf = PInf"
| "fabs NaN = NaN"

fun fsqrt :: "flt \<Rightarrow> flt" where
  "fsqrt (Fin x) = (if x < 0 then NaN else Fin (sqrt x))"
| "fsqrt PInf = PInf"
| "fsqrt NInf = NaN"
| "fsqrt NaN = NaN"

text \<open>
  \<open>np.exp\<close>. Binary64 saturates: the exponential underflows to zero below about
  \<open>-745.13\<close> and overflows to infinity above about \<open>709.78\<close>. The model takes the
  integer thresholds \<open>-746\<close> and \<open>710\<close>; in between the value is the exact
  exponential.
\<close>

fun fexp :: "flt \<Rightarrow> flt" where
  "fexp (Fin x) = (if x < - 746 then Fin 0 else if 710 < x then PInf else Fin (exp x))"
| "fexp PInf = PInf"
| "fexp NInf = Fin 0"
| "fexp NaN = NaN"

definition isnan :: "flt \<Rightarrow> bool" where
  "isnan a = (a = NaN)"

fun isfinite :: "flt \<Rightarrow> bool" where
  "isfinite (Fin x) = True"
| "isfinite PInf = False"
| "isfinite NInf = False"
| "isfinite NaN = False"

text \<open>The constants of \<open>np.finfo(float)\<close>: machine epsilon, the largest finite
  number, the smallest positive normal number and the smallest positive subnormal one.\<close>

definition finfo_eps :: real where
  "finfo_eps = 1 / 2 ^ 52"

definition finfo_max :: real where
  "finfo_max = (2 - 1 / 2 ^ 52) * 2 ^ 1023"

definition finfo_tiny :: real where
  "finfo_tiny = 1 / 2 ^ 1022"

definition finfo_smallest_subnormal :: real where
  "finfo_smallest_subnormal = 1 / 2 ^ 1074"

text \<open>\<open>np.nan_to_num\<close>: NaN becomes zero, an infinity the finite number of largest
  magnitude with the same sign.\<close>

fun nan_to_num :: "flt \<Rightarrow> flt" where
  "nan_to_num (Fin x) = Fin x"
| "nan_to_num PInf = Fin finfo_max"
| "nan_to_num NInf = Fin (- finfo_max)"
| "nan_to_num NaN = Fin 0"

section \<open>Vectors and matrices\<close>

text \<open>
  A one-dimensional array is a list, a two-dimensional array a list of rows, a
  three-dimensional array a list of matrices. The arrays are taken with the shapes the
  docstring of \<open>variational\<close> gives them; an array without rows has no column count.
\<close>

type_synonym vec = "flt list"
type_synonym mat = "flt list list"

definition fsum :: "vec \<Rightarrow> flt" where
  "fsum xs = foldr fadd xs (Fin 0)"

definition dot :: "vec \<Rightarrow> vec \<Rightarrow> flt" where
  "dot u v = fsum (map2 fmul u v)"

definition vadd :: "vec \<Rightarrow> vec \<Rightarrow> vec" where
  "vadd u v = map2 fadd u v"

definition vsub :: "vec \<Rightarrow> vec \<Rightarrow> vec" where
  "vsub u v = map2 fsub u v"

definition vmul :: "vec \<Rightarrow> vec \<Rightarrow> vec" where
  "vmul u v = map2 fmul u v"

definition vscale :: "flt \<Rightarrow> vec \<Rightarrow> vec" where
  "vscale c v = map (fmul c) v"

definition vdivs :: "vec \<Rightarrow> flt \<Rightarrow> vec" where
  "vdivs v c = map (\<lambda>x. fdiv x c) v"

definition vsubs :: "vec \<Rightarrow> flt \<Rightarrow> vec" where
  "vsubs v c = map (\<lambda>x. fsub x c) v"

definition vsq :: "vec \<Rightarrow> vec" where
  "vsq v = map (\<lambda>x. fmul x x) v"

definition ncols :: "mat \<Rightarrow> nat" where
  "ncols m = (case m of [] \<Rightarrow> 0 | r # _ \<Rightarrow> length r)"

definition col :: "mat \<Rightarrow> nat \<Rightarrow> vec" where
  "col m n = map (\<lambda>r. r ! n) m"

definition set_col :: "mat \<Rightarrow> nat \<Rightarrow> vec \<Rightarrow> mat" where
  "set_col m n v = map (\<lambda>t. (m ! t)[n := v ! t]) [0..<length m]"

definition set2 :: "mat \<Rightarrow> nat \<Rightarrow> nat \<Rightarrow> flt \<Rightarrow> mat" where
  "set2 m i j x = m[i := (m ! i)[j := x]]"

definition transpose_m :: "mat \<Rightarrow> mat" where
  "transpose_m m = map (col m) [0..<ncols m]"

definition matvec :: "mat \<Rightarrow> vec \<Rightarrow> vec" where
  "matvec m v = map (\<lambda>r. dot r v) m"

definition matmul :: "mat \<Rightarrow> mat \<Rightarrow> mat" where
  "matmul a b = map (\<lambda>r. map (\<lambda>j. dot r (col b j)) [0..<ncols b]) a"

definition madd :: "mat \<Rightarrow> mat \<Rightarrow> mat" where
  "madd a b = map2 vadd a b"

definition msub :: "mat \<Rightarrow> mat \<Rightarrow> mat" where
  "msub a b = map2 vsub a b"

definition mmul_elem :: "mat \<Rightarrow> mat \<Rightarrow> mat" where
  "mmul_elem a b = map2 vmul a b"

definition mscale :: "flt \<Rightarrow> mat \<Rightarrow> mat" where
  "mscale c m = map (vscale c) m"

definition diag :: "vec \<Rightarrow> mat" where
  "diag v = map (\<lambda>i. map (\<lambda>j. if i = j then v ! i else Fin 0) [0..<length v]) [0..<length v]"

definition diagonal :: "mat \<Rightarrow> vec" where
  "diagonal m = map (\<lambda>i. m ! i ! i) [0..<length m]"

definition trace :: "mat \<Rightarrow> flt" where
  "trace m = fsum (diagonal m)"

definition identity :: "nat \<Rightarrow> mat" where
  "identity n = map (\<lambda>i. map (\<lambda>j. if i = j then Fin 1 else Fin 0) [0..<n]) [0..<n]"

definition np_sum :: "mat \<Rightarrow> flt" where
  "np_sum m = fsum (concat m)"

definition np_mean :: "vec \<Rightarrow> flt" where
  "np_mean v = fdiv (fsum v) (Fin (real (length v)))"

section \<open>The rate\<close>

text \<open>
  \<open>saferate\<close> of \<open>optimization.py\<close>: the exponential of the linear predictor with the
  second-order correction, passed through \<open>nan_to_num\<close> and replaced by machine
  epsilon when it is not positive.
\<close>

definition lograte ::
  "nat \<Rightarrow> nat \<Rightarrow> mat \<Rightarrow> mat \<Rightarrow> mat list \<Rightarrow> mat \<Rightarrow> mat \<Rightarrow> flt" where
  "lograte t n regressor post_mean post_cov beta alpha =
     fadd (fadd (dot (regressor ! t) (col beta n)) (dot (post_mean ! t) (col alpha n)))
          (fmul (Fin (1 / 2))
             (fsum (vmul (vsq (col alpha n)) (map (\<lambda>V. V ! t ! t) post_cov))))"

definition saferate ::
  "nat \<Rightarrow> nat \<Rightarrow> mat \<Rightarrow> mat \<Rightarrow> mat list \<Rightarrow> mat \<Rightarrow> mat \<Rightarrow> flt" where
  "saferate t n regressor post_mean post_cov beta alpha =
     (let rate = nan_to_num (fexp (lograte t n regressor post_mean post_cov beta alpha))
      in if fless (Fin 0) rate then rate else Fin finfo_eps)"

text \<open>\<open>saferate\<close> of \<open>vb.py\<close>, which stops after \<open>nan_to_num\<close>.\<close>

definition vb_saferate ::
  "nat \<Rightarrow> nat \<Rightarrow> mat \<Rightarrow> mat \<Rightarrow> mat list \<Rightarrow> mat \<Rightarrow> mat \<Rightarrow> flt" where
  "vb_saferate t n Y m V b a = nan_to_num (fexp (lograte t n Y m V b a))"

section \<open>Errors, configuration and the library\<close>

datatype pyerr = KeyError | IndexError | ValueError | LinAlgError | TypeError

definition ebind :: "pyerr + 'a \<Rightarrow> ('a \<Rightarrow> pyerr + 'b) \<Rightarrow> pyerr + 'b" where
  "ebind m f = (case m of Inl e \<Rightarrow> Inl e | Inr x \<Rightarrow> f x)"

text \<open>The control dictionary maps option names to Python values.\<close>

datatype cval = CInt int | CFloat flt | CBool bool

type_synonym control = "string \<rightharpoonup> cval"

definition default_control :: control where
  "default_control =
     [''maxiter'' \<mapsto> CInt 200,
      ''fixed-point iteration'' \<mapsto> CInt 3,
      ''tol'' \<mapsto> CFloat (Fin (1 / 10 ^ 4)),
      ''verbose'' \<mapsto> CBool False]"

definition getitem :: "control \<Rightarrow> string \<Rightarrow> pyerr + cval" where
  "getitem c k = (case c k of None \<Rightarrow> Inl KeyError | Some v \<Rightarrow> Inr v)"

fun as_int :: "cval \<Rightarrow> pyerr + int" where
  "as_int (CInt n) = Inr n"
| "as_int (CBool b) = Inr (if b then 1 else 0)"
| "as_int (CFloat x) = Inl TypeError"

fun as_flt :: "cval \<Rightarrow> flt" where
  "as_flt (CInt n) = Fin (real_of_int n)"
| "as_flt (CBool b) = Fin (if b then 1 else 0)"
| "as_flt (CFloat x) = x"

fun truthy :: "cval \<Rightarrow> bool" where
  "truthy (CInt n) = (n \<noteq> 0)"
| "truthy (CBool b) = b"
| "truthy (CFloat x) = (x \<noteq> Fin 0)"

text \<open>
  The functions the optimizer calls but does not define. \<open>makeregressor\<close> and
  \<open>sqexpcov\<close> belong to the module \<open>util\<close>, which is not among the sources; the others
  are numpy and scipy routines. They are parameters of the model. A routine that can
  raise returns a sum. \<open>inchol\<close> is left out: its result is stored in \<open>prior_chol\<close>
  and never read. \<open>randn\<close> stands for the draw of \<open>np.random.randn\<close>; \<open>slogdet\<close> is
  the second component of \<open>np.linalg.slogdet\<close>; the \<open>lstsq\<close> fields are the first
  component of \<open>linalg.lstsq\<close> for a matrix and for a vector right-hand side.
\<close>

record env =
  makeregressor :: "mat \<Rightarrow> nat \<Rightarrow> bool \<Rightarrow> mat"
  sqexpcov :: "nat \<Rightarrow> flt \<Rightarrow> flt \<Rightarrow> mat"
  randn :: "nat \<Rightarrow> nat \<Rightarrow> mat"
  linalg_solve :: "mat \<Rightarrow> vec \<Rightarrow> pyerr + vec"
  linalg_cholesky :: "mat \<Rightarrow> pyerr + mat"
  linalg_lstsq :: "mat \<Rightarrow> mat \<Rightarrow> pyerr + mat"
  linalg_lstsq_vec :: "mat \<Rightarrow> vec \<Rightarrow> pyerr + vec"
  linalg_svd :: "mat \<Rightarrow> pyerr + (mat \<times> vec \<times> mat)"
  slogdet :: "mat \<Rightarrow> flt"

text \<open>\<open>scipy.linalg.norm\<close> refuses arrays with a NaN or an infinity
  (\<open>asarray_chkfinite\<close>); with \<open>ord=inf\<close> it is the largest absolute value, which
  does not exist for an empty vector, and without \<open>ord\<close> the Euclidean norm.\<close>

definition linalg_norm_inf :: "vec \<Rightarrow> pyerr + flt" where
  "linalg_norm_inf v =
     (if \<not> list_all isfinite v \<or> v = [] then Inl ValueError
      else Inr (foldr (\<lambda>x m. if fless m (fabs x) then fabs x else m) v (Fin 0)))"

definition linalg_norm :: "vec \<Rightarrow> pyerr + flt" where
  "linalg_norm v =
     (if \<not> list_all isfinite v then Inl ValueError else Inr (fsqrt (fsum (vsq v))))"

text \<open>\<open>np.max\<close> raises on an empty array and propagates NaN; the builtin \<open>max\<close>
  keeps its current candidate unless the next item compares greater.\<close>

definition fmaximum :: "flt \<Rightarrow> flt \<Rightarrow> flt" where
  "fmaximum a b = (if isnan a \<or> isnan b then NaN else if fless a b then b else a)"

definition np_max :: "vec \<Rightarrow> pyerr + flt" where
  "np_max v = (case v of [] \<Rightarrow> Inl ValueError | x # xs \<Rightarrow> Inr (foldl fmaximum x xs))"

definition py_max :: "flt \<Rightarrow> flt list \<Rightarrow> flt" where
  "py_max x xs = foldl (\<lambda>m y. if fless m y then y else m) x xs"

definition max_abs_diff :: "mat \<Rightarrow> mat \<Rightarrow> pyerr + flt" where
  "max_abs_diff a b = np_max (map fabs (concat (msub a b)))"

definition max_abs_diff3 :: "mat list \<Rightarrow> mat list \<Rightarrow> pyerr + flt" where
  "max_abs_diff3 a b = np_max (map fabs (concat (concat (map2 msub a b))))"

section \<open>The lower bound\<close>

definition lb_term :: "env \<Rightarrow> mat \<Rightarrow> mat list \<Rightarrow> mat \<Rightarrow> mat list \<Rightarrow> nat \<Rightarrow> flt" where
  "lb_term E prior_mean prior_inv post_mean post_cov l =
     (let d = vsub (col post_mean l) (col prior_mean l)
      in fadd (fsub (fmul (Fin (- (1 / 2))) (dot d (matvec (prior_inv ! l) d)))
                    (fmul (Fin (1 / 2)) (trace (matmul (prior_inv ! l) (post_cov ! l)))))
              (fmul (Fin (1 / 2)) (slogdet E (post_cov ! l))))"

definition lowerbound ::
  "env \<Rightarrow> mat \<Rightarrow> mat \<Rightarrow> mat \<Rightarrow> mat \<Rightarrow> mat list \<Rightarrow> mat list \<Rightarrow> mat \<Rightarrow> mat list \<Rightarrow> mat \<Rightarrow> mat
     \<Rightarrow> flt" where
  "lowerbound E spike beta alpha prior_mean prior_cov prior_inv post_mean post_cov
       regressor rate =
     foldl (\<lambda>lb l. fadd lb (lb_term E prior_mean prior_inv post_mean post_cov l))
       (np_sum (msub (mmul_elem spike
                        (madd (matmul regressor beta) (matmul post_mean alpha))) rate))
       [0..<ncols prior_mean]"

section \<open>The optimizer state\<close>

text \<open>The arguments of \<open>variational\<close> other than \<open>control\<close>. The arrays hold floats;
  \<open>rate\<close> is allocated with the element type of \<open>spike\<close>, so the observations are
  taken as an array of floats.\<close>

record args =
  spike :: mat
  p :: nat
  prior_mean :: mat
  prior_var :: vec
  prior_w :: vec
  a0 :: "mat option"
  b0 :: "mat option"
  m0 :: "mat option"
  fixalpha :: bool
  fixbeta :: bool
  fixpostmean :: bool
  fixpostcov :: bool
  normofalpha :: flt
  intercept :: bool
  hyper :: bool

text \<open>What stays fixed during the loop: the arguments, the regressor and the three
  control values the loop reads.\<close>

record ctx =
  cargs :: args
  regressor :: mat
  maxiter :: nat
  tol :: flt
  verbose :: bool

definition dimT :: "ctx \<Rightarrow> nat" where
  "dimT C = length (spike (cargs C))"

definition dimN :: "ctx \<Rightarrow> nat" where
  "dimN C = ncols (spike (cargs C))"

definition dimL :: "ctx \<Rightarrow> nat" where
  "dimL C = ncols (prior_mean (cargs C))"

text \<open>What the program prints, and the warnings it would issue.\<close>

datatype event =
    PrintError string
  | PrintHyper nat flt flt
  | PrintHyperFailed
  | PrintIteration nat flt flt flt flt flt flt
  | Warning string

text \<open>
  The variable \<open>bmat\<close> first holds the integer array \<open>-(i - j) ** 2\<close> and is later
  rebound to an \<open>np.matrix\<close>; the product \<open>prior_cov[l, :, :] * bmat\<close> of the
  hyperparameter step is elementwise for the former and a matrix product for the
  latter.
\<close>

datatype bm = NdArray mat | Matrix mat

text \<open>
  The mutable variables of \<open>variational\<close>. \<open>w\<close> is one variable in the source: the
  copy of \<open>prior_w\<close> until a posterior block rebinds it to \<open>np.dot(rate, alpha[l, :] ** 2)\<close>.
  The scratch arrays \<open>last_b\<close>, \<open>last_a\<close>, \<open>last_m\<close> and \<open>last_rate\<close> are written
  and read back inside one block step and appear as local bindings there.
\<close>

record state =
  beta :: mat
  alpha :: mat
  post_mean :: mat
  post_cov :: "mat list"
  prior_cov :: "mat list"
  prior_inv :: "mat list"
  rate :: mat
  variance :: vec
  w :: vec
  bmat :: bm
  stepsize_alpha :: vec
  stepsize_beta :: vec
  stepsize_post_mean :: vec
  stepsize_w :: vec
  lbound :: vec
  good_alpha :: mat
  good_beta :: mat
  good_post_mean :: mat
  good_post_cov :: "mat list"
  converged :: bool
  out :: "event list"

definition eps :: flt where
  "eps = Fin (2 * finfo_eps)"

definition deflation :: flt where
  "deflation = Fin (1 / 2)"

definition inflation :: flt where
  "inflation = Fin (3 / 2)"

definition thld :: flt where
  "thld = Fin (3 / 4)"

definition updaterate :: "ctx \<Rightarrow> state \<Rightarrow> nat list \<Rightarrow> nat list \<Rightarrow> mat" where
  "updaterate C st rows cols =
     foldl (\<lambda>r (row, c). set2 r row c
              (saferate row c (regressor C) (post_mean st) (post_cov st) (beta st) (alpha st)))
       (rate st) (List.product rows cols)"

definition lb_of :: "env \<Rightarrow> ctx \<Rightarrow> state \<Rightarrow> flt" where
  "lb_of E C st =
     lowerbound E (spike (cargs C)) (beta st) (alpha st) (prior_mean (cargs C))
       (prior_cov st) (prior_inv st) (post_mean st) (post_cov st) (regressor C) (rate st)"

section \<open>Regression coefficients\<close>

definition grad_b :: "ctx \<Rightarrow> state \<Rightarrow> nat \<Rightarrow> vec" where
  "grad_b C st n =
     matvec (transpose_m (regressor C)) (vsub (col (spike (cargs C)) n) (col (rate st) n))"

definition neg_hess_b :: "ctx \<Rightarrow> state \<Rightarrow> nat \<Rightarrow> mat" where
  "neg_hess_b C st n =
     matmul (transpose_m (regressor C))
       (transpose_m (map (\<lambda>r. vmul r (col (rate st) n)) (transpose_m (regressor C))))"

text \<open>The tentative state of channel \<open>n\<close>: the step is added and the column of the
  rate refreshed.\<close>

definition beta_try :: "ctx \<Rightarrow> nat \<Rightarrow> vec \<Rightarrow> state \<Rightarrow> state" where
  "beta_try C n delta_b st =
     (let st1 = st\<lparr>beta := set_col (beta st) n (vadd (col (beta st) n) delta_b)\<rparr>
      in st1\<lparr>rate := updaterate C st1 [0..<dimT C] [n]\<rparr>)"

definition beta_step :: "env \<Rightarrow> ctx \<Rightarrow> nat \<Rightarrow> nat \<Rightarrow> vec \<Rightarrow> mat \<Rightarrow> vec \<Rightarrow> state \<Rightarrow> state" where
  "beta_step E C it n grad H sol st =
     (let delta_b = vscale (stepsize_beta st ! n) sol;
          last_b = col (beta st) n;
          last_rate = col (rate st) n;
          predict = fsub (dot grad delta_b)
                      (fmul (Fin (1 / 2)) (dot delta_b (matvec H delta_b)));
          st1 = beta_try C n delta_b st;
          lb = lb_of E C st1
      in if isnan lb \<or> fless lb (lbound st ! (it - 1)) then
           st1\<lparr>stepsize_beta :=
                 (stepsize_beta st)[n := fadd (fmul (stepsize_beta st ! n) deflation) eps],
               beta := set_col (beta st1) n last_b,
               rate := set_col (rate st1) n last_rate\<rparr>
         else if fless (fmul thld predict) (fsub lb (lbound st ! (it - 1))) then
           st1\<lparr>stepsize_beta := (stepsize_beta st)[n := fmul (stepsize_beta st ! n) inflation]\<rparr>
         else st1)"

text \<open>The loop over the channels. A small gradient leaves the loop (\<open>break\<close>); a
  \<open>LinAlgError\<close> of the solver is printed and the loop goes on (\<open>continue\<close>); any other
  exception propagates.\<close>

fun beta_loop :: "env \<Rightarrow> ctx \<Rightarrow> nat \<Rightarrow> nat list \<Rightarrow> state \<Rightarrow> pyerr + state" where
  "beta_loop E C it [] st = Inr st"
| "beta_loop E C it (n # ns) st =
     (let grad = grad_b C st n; H = neg_hess_b C st n
      in case linalg_norm_inf grad of
           Inl e \<Rightarrow> Inl e
         | Inr g \<Rightarrow>
             if fless g eps then Inr st
             else (case linalg_solve E H grad of
                     Inl e \<Rightarrow>
                       if e = LinAlgError
                       then beta_loop E C it ns (st\<lparr>out := out st @ [PrintError ''beta'']\<rparr>)
                       else Inl e
                   | Inr sol \<Rightarrow> beta_loop E C it ns (beta_step E C it n grad H sol st)))"

section \<open>Loadings\<close>

definition grad_a :: "ctx \<Rightarrow> state \<Rightarrow> nat \<Rightarrow> vec" where
  "grad_a C st l =
     vsub (matvec (transpose_m (msub (spike (cargs C)) (rate st))) (col (post_mean st) l))
          (vmul (matvec (transpose_m (rate st)) (diagonal (post_cov st ! l))) (alpha st ! l))"

definition neg_hess_a :: "ctx \<Rightarrow> state \<Rightarrow> nat \<Rightarrow> mat" where
  "neg_hess_a C st l =
     (let rT = transpose_m (rate st);
          m = col (post_mean st) l;
          v = diagonal (post_cov st ! l);
          a = alpha st ! l
      in diag (vadd (vadd (vadd (matvec rT (vsq m))
                                (vmul (vscale (Fin 2) (matvec rT (vmul m v))) a))
                          (vmul (matvec rT (vsq v)) (vsq a)))
                    (matvec rT v)))"

text \<open>The tentative state of latent \<open>l\<close>: the step is added, the row rescaled to
  \<open>normofalpha\<close> (the norm raises on a row that is not finite) and the whole rate
  refreshed.\<close>

definition alpha_try :: "ctx \<Rightarrow> nat \<Rightarrow> vec \<Rightarrow> state \<Rightarrow> pyerr + state" where
  "alpha_try C l delta_a st =
     (let moved = vadd (alpha st ! l) delta_a
      in ebind (linalg_norm moved) (\<lambda>nrm.
           let st1 = st\<lparr>alpha := (alpha st)[l := vdivs moved (fdiv nrm (normofalpha (cargs C)))]\<rparr>
           in Inr (st1\<lparr>rate := updaterate C st1 [0..<dimT C] [0..<dimN C]\<rparr>)))"

definition alpha_step ::
  "env \<Rightarrow> ctx \<Rightarrow> nat \<Rightarrow> nat \<Rightarrow> vec \<Rightarrow> mat \<Rightarrow> vec \<Rightarrow> state \<Rightarrow> pyerr + state" where
  "alpha_step E C it l grad H sol st =
     (let delta0 = vscale (stepsize_alpha st ! l) sol;
          last_a = alpha st ! l;
          last_rate = rate st
      in ebind (alpha_try C l delta0 st) (\<lambda>st1.
           let delta_a = vsub (alpha st1 ! l) last_a;
               predict = fsub (dot grad delta_a)
                           (fmul (Fin (1 / 2)) (dot delta_a (matvec H delta_a)));
               lb = lb_of E C st1
           in if isnan lb \<or> fless (fsub lb (lbound st ! (it - 1))) (Fin 0) then
                Inr (st1\<lparr>stepsize_alpha :=
                           (stepsize_alpha st)[l := fadd (fmul (stepsize_alpha st ! l) deflation) eps],
                         alpha := (alpha st1)[l := last_a],
                         rate := last_rate\<rparr>)
              else if fless (fmul thld predict) (fsub lb (lbound st ! (it - 1))) then
                Inr (st1\<lparr>stepsize_alpha :=
                           (stepsize_alpha st)[l := fmul (stepsize_alpha st ! l) inflation]\<rparr>)
              else Inr st1))"

text \<open>The loop over the latents. \<open>stepsize_alpha\<close> has one entry per channel, and
  \<open>stepsize_alpha[l]\<close> is read before the solver is called.\<close>

fun alpha_loop :: "env \<Rightarrow> ctx \<Rightarrow> nat \<Rightarrow> nat list \<Rightarrow> state \<Rightarrow> pyerr + state" where
  "alpha_loop E C it [] st = Inr st"
| "alpha_loop E C it (l # ls) st =
     (let grad = grad_a C st l; H = neg_hess_a C st l
      in case linalg_norm_inf grad of
           Inl e \<Rightarrow> Inl e
         | Inr g \<Rightarrow>
             if fless g eps then Inr st
             else if length (stepsize_alpha st) \<le> l then Inl IndexError
             else (case linalg_solve E H grad of
                     Inl e \<Rightarrow>
                       if e = LinAlgError
                       then alpha_loop E C it ls (st\<lparr>out := out st @ [PrintError ''alpha'']\<rparr>)
                       else Inl e
                   | Inr sol \<Rightarrow>
                       ebind (alpha_step E C it l grad H sol st) (alpha_loop E C it ls)))"

section \<open>Posterior mean and covariance\<close>

text \<open>
  The lines both posterior blocks share: the curvature vector \<open>w\<close>, the matrix
  \<open>bmat = eyeT + wsqrt * prior_cov * wsqrt\<close>, its Cholesky factor and the Woodbury
  form of the inverse curvature. The Cholesky factorisation and the least-squares
  solves are outside every \<open>try\<close>.
\<close>

definition woodbury :: "env \<Rightarrow> ctx \<Rightarrow> state \<Rightarrow> nat \<Rightarrow> pyerr + (vec \<times> mat \<times> mat)" where
  "woodbury E C st l =
     (let w1 = matvec (rate st) (vsq (alpha st ! l));
          wsqrt = diag (map fsqrt w1);
          S = prior_cov st ! l;
          bmat1 = madd (identity (dimT C)) (matmul (matmul wsqrt S) wsqrt)
      in ebind (linalg_cholesky E bmat1) (\<lambda>bchol.
         ebind (linalg_lstsq E bchol (matmul wsqrt S)) (\<lambda>x1.
         ebind (linalg_lstsq E (transpose_m bchol) x1) (\<lambda>x2.
           Inr (w1, bmat1, msub S (matmul (matmul S wsqrt) x2))))))"

definition grad_m :: "ctx \<Rightarrow> state \<Rightarrow> nat \<Rightarrow> vec" where
  "grad_m C st l =
     vsub (matvec (msub (spike (cargs C)) (rate st)) (alpha st ! l))
          (matvec (prior_inv st ! l)
             (vsub (col (post_mean st) l) (col (prior_mean (cargs C)) l)))"

text \<open>The tentative state of latent \<open>l\<close>: the step is added, the column centred by
  subtracting its mean and the whole rate refreshed.\<close>

definition post_mean_try :: "ctx \<Rightarrow> nat \<Rightarrow> vec \<Rightarrow> state \<Rightarrow> state" where
  "post_mean_try C l delta_m st =
     (let moved = vadd (col (post_mean st) l) delta_m;
          st1 = st\<lparr>post_mean := set_col (post_mean st) l (vsubs moved (np_mean moved))\<rparr>
      in st1\<lparr>rate := updaterate C st1 [0..<dimT C] [0..<dimN C]\<rparr>)"

definition post_mean_step ::
  "env \<Rightarrow> ctx \<Rightarrow> nat \<Rightarrow> nat \<Rightarrow> vec \<Rightarrow> mat \<Rightarrow> state \<Rightarrow> pyerr + state" where
  "post_mean_step E C it l grad hinv st =
     (let delta0 = vscale (stepsize_post_mean st ! l) (matvec hinv grad);
          last_m = col (post_mean st) l;
          last_rate = rate st;
          st1 = post_mean_try C l delta0 st;
          delta_m = vsub (col (post_mean st1) l) last_m
      in ebind (linalg_lstsq_vec E hinv delta_m) (\<lambda>z.
           let predict = fsub (dot grad delta_m) (fmul (Fin (1 / 2)) (dot delta_m z));
               lb = lb_of E C st1
           in if isnan lb \<or> fless lb (lbound st ! (it - 1)) then
                Inr (st1\<lparr>stepsize_post_mean :=
                           (stepsize_post_mean st)
                             [l := fadd (fmul (stepsize_post_mean st ! l) deflation) eps],
                         post_mean := set_col (post_mean st1) l last_m,
                         rate := last_rate\<rparr>)
              else if fless (fmul thld predict) (fsub lb (lbound st ! (it - 1))) then
                Inr (st1\<lparr>stepsize_post_mean :=
                           (stepsize_post_mean st)
                             [l := fmul (stepsize_post_mean st ! l) inflation]\<rparr>)
              else Inr st1))"

fun post_mean_loop :: "env \<Rightarrow> ctx \<Rightarrow> nat \<Rightarrow> nat list \<Rightarrow> state \<Rightarrow> pyerr + state" where
  "post_mean_loop E C it [] st = Inr st"
| "post_mean_loop E C it (l # ls) st =
     (let grad = grad_m C st l
      in ebind (woodbury E C st l) (\<lambda>(w1, bmat1, hinv).
           let st0 = st\<lparr>w := w1, bmat := Matrix bmat1\<rparr>
           in case linalg_norm_inf grad of
                Inl e \<Rightarrow> Inl e
              | Inr g \<Rightarrow>
                  if fless g eps then Inr st0
                  else ebind (post_mean_step E C it l grad hinv st0)
                         (post_mean_loop E C it ls)))"

text \<open>The posterior covariance is replaced without any test of the lower bound.\<close>

fun post_cov_loop :: "env \<Rightarrow> ctx \<Rightarrow> nat list \<Rightarrow> state \<Rightarrow> pyerr + state" where
  "post_cov_loop E C [] st = Inr st"
| "post_cov_loop E C (l # ls) st =
     ebind (woodbury E C st l) (\<lambda>(w1, bmat1, V).
       let st1 = st\<lparr>w := w1, bmat := Matrix bmat1, post_cov := (post_cov st)[l := V]\<rparr>
       in post_cov_loop E C ls (st1\<lparr>rate := updaterate C st1 [0..<dimT C] [0..<dimN C]\<rparr>))"

section \<open>Hyperparameters\<close>

text \<open>The generalised inverse the program builds from the singular value
  decomposition.\<close>

definition pinv_svd :: "env \<Rightarrow> mat \<Rightarrow> pyerr + mat" where
  "pinv_svd E A =
     ebind (linalg_svd E A) (\<lambda>(U, s, Vh).
       Inr (matmul (transpose_m Vh)
              (matmul (diag (map (\<lambda>x. nan_to_num (fabs (fdiv (Fin 1) x))) s))
                 (transpose_m U))))"

definition new_var :: "ctx \<Rightarrow> state \<Rightarrow> nat \<Rightarrow> flt" where
  "new_var C st l =
     (let d = vsub (col (post_mean st) l) (col (prior_mean (cargs C)) l)
      in fdiv (fmul (variance st ! l)
                 (fadd (dot d (matvec (prior_inv st ! l) d))
                       (trace (matmul (prior_inv st ! l) (post_cov st ! l)))))
              (Fin (real (dimT C))))"

definition grad_w :: "ctx \<Rightarrow> state \<Rightarrow> nat \<Rightarrow> flt" where
  "grad_w C st l =
     (let d = vsub (col (post_mean st) l) (col (prior_mean (cargs C)) l);
          P = prior_inv st ! l;
          SB = (case bmat st of
                  NdArray b \<Rightarrow> mmul_elem (prior_cov st ! l) b
                | Matrix b \<Rightarrow> matmul (prior_cov st ! l) b);
          amat = matmul (matmul P SB) P
      in fdiv (fsub (fadd (dot d (matvec amat d)) (trace (matmul amat (post_cov st ! l))))
                    (trace (matmul P SB)))
              (Fin 2))"

text \<open>
  One hyperparameter step of latent \<open>l\<close>: the new variance and the new \<open>w[l]\<close> are
  stored, the prior covariance and its inverse rebuilt from them, and the lower bound
  recomputed. When it is NaN or below the previous bound, the saved covariance and
  inverse come back and the step size is halved.
\<close>

definition hyper_step ::
  "env \<Rightarrow> ctx \<Rightarrow> nat \<Rightarrow> mat list \<Rightarrow> mat list \<Rightarrow> nat \<Rightarrow> state \<Rightarrow> pyerr + state" where
  "hyper_step E C it last_prior_cov last_prior_inv l st =
     (let variance1 = (variance st)[l := new_var C st l];
          g = grad_w C st l
      in if length (w st) \<le> l then Inl IndexError
         else
           let w1 = (w st)[l := fadd (w st ! l) (fmul (stepsize_w st ! l) g)];
               S1 = sqexpcov E (dimT C) (w1 ! l) (variance1 ! l)
           in ebind (pinv_svd E S1) (\<lambda>P1.
                let st1 = st\<lparr>variance := variance1, w := w1,
                             prior_cov := (prior_cov st)[l := S1],
                             prior_inv := (prior_inv st)[l := P1],
                             out := out st @ [PrintHyper l (variance1 ! l) (w1 ! l)]\<rparr>;
                    lb = lb_of E C st1
                in if isnan lb \<or> fless lb (lbound st ! (it - 1)) then
                     Inr (st1\<lparr>out := out st1 @ [PrintHyperFailed],
                              prior_cov := (prior_cov st1)[l := last_prior_cov ! l],
                              prior_inv := (prior_inv st1)[l := last_prior_inv ! l],
                              stepsize_w :=
                                (stepsize_w st)[l := fmul (stepsize_w st ! l) (Fin (1 / 2))]\<rparr>)
                   else Inr st1))"

fun hyper_loop ::
  "env \<Rightarrow> ctx \<Rightarrow> nat \<Rightarrow> mat list \<Rightarrow> mat list \<Rightarrow> nat list \<Rightarrow> state \<Rightarrow> pyerr + state" where
  "hyper_loop E C it lc li [] st = Inr st"
| "hyper_loop E C it lc li (l # ls) st =
     ebind (hyper_step E C it lc li l st) (hyper_loop E C it lc li ls)"

section \<open>One outer iteration and the loop\<close>

text \<open>The end of an iteration: the bound is recorded, the largest change of the blocks
  that are not frozen is compared with the tolerance, and the current values become
  the snapshot.\<close>

definition changes :: "ctx \<Rightarrow> state \<Rightarrow> pyerr + (flt \<times> flt \<times> flt \<times> flt)" where
  "changes C st =
     ebind (if fixalpha (cargs C) then Inr (Fin 0)
            else max_abs_diff (good_alpha st) (alpha st)) (\<lambda>chg_alpha.
     ebind (if fixbeta (cargs C) then Inr (Fin 0)
            else max_abs_diff (good_beta st) (beta st)) (\<lambda>chg_beta.
     ebind (if fixpostmean (cargs C) then Inr (Fin 0)
            else max_abs_diff (good_post_mean st) (post_mean st)) (\<lambda>chg_post_mean.
     ebind (if fixpostcov (cargs C) then Inr (Fin 0)
            else max_abs_diff3 (good_post_cov st) (post_cov st)) (\<lambda>chg_post_cov.
       Inr (chg_alpha, chg_beta, chg_post_mean, chg_post_cov)))))"

definition change_of :: "flt \<times> flt \<times> flt \<times> flt \<Rightarrow> flt" where
  "change_of ch =
     (case ch of (chg_alpha, chg_beta, chg_post_mean, chg_post_cov) \<Rightarrow>
        py_max chg_alpha [chg_beta, chg_post_mean, chg_post_cov])"

definition finish :: "env \<Rightarrow> ctx \<Rightarrow> nat \<Rightarrow> state \<Rightarrow> pyerr + state" where
  "finish E C it st =
     (let st1 = st\<lparr>lbound := (lbound st)[it := lb_of E C st]\<rparr>
      in ebind (changes C st1) (\<lambda>ch.
           let st2 = (if fless (change_of ch) (tol C) then st1\<lparr>converged := True\<rparr> else st1);
               st3 = (if verbose C
                      then st2\<lparr>out := out st2 @
                             [case ch of (chg_alpha, chg_beta, chg_post_mean, chg_post_cov) \<Rightarrow>
                                PrintIteration (it + 1) (lbound st2 ! it)
                                  (fsub (lbound st2 ! it) (lbound st2 ! (it - 1)))
                                  chg_alpha chg_beta chg_post_mean chg_post_cov]\<rparr>
                      else st2)
           in Inr (st3\<lparr>good_alpha := alpha st3, good_beta := beta st3,
                       good_post_mean := post_mean st3,
                       good_post_cov := post_cov st3\<rparr>)))"

text \<open>The five blocks of an iteration, in the order of the source, and the iteration.\<close>

definition blocks :: "env \<Rightarrow> ctx \<Rightarrow> nat \<Rightarrow> state \<Rightarrow> pyerr + state" where
  "blocks E C it st =
     ebind (if fixbeta (cargs C) then Inr st
            else beta_loop E C it [0..<dimN C] st) (\<lambda>s1.
     ebind (if fixalpha (cargs C) then Inr s1
            else alpha_loop E C it [0..<dimL C] s1) (\<lambda>s2.
     ebind (if fixpostmean (cargs C) then Inr s2
            else post_mean_loop E C it [0..<dimL C] s2) (\<lambda>s3.
     ebind (if fixpostcov (cargs C) then Inr s3
            else post_cov_loop E C [0..<dimL C] s3) (\<lambda>s4.
       if hyper (cargs C) \<and> it mod 5 = 0
       then hyper_loop E C it (prior_cov s4) (prior_inv s4) [0..<dimL C] s4
       else Inr s4))))"

definition iteration :: "env \<Rightarrow> ctx \<Rightarrow> nat \<Rightarrow> state \<Rightarrow> pyerr + state" where
  "iteration E C it st = ebind (blocks E C it st) (finish E C it)"

text \<open>\<open>while not converged and it < maxiter\<close>. The counter is a parameter; the loop
  returns it with the state.\<close>

function main_loop :: "env \<Rightarrow> ctx \<Rightarrow> nat \<Rightarrow> state \<Rightarrow> pyerr + (nat \<times> state)" where
  "main_loop E C it st =
     (if \<not> converged st \<and> it < maxiter C
      then (case iteration E C it st of
              Inl e \<Rightarrow> Inl e
            | Inr st1 \<Rightarrow> main_loop E C (it + 1) st1)
      else Inr (it, st))"
  by pat_completeness auto
termination
  by (relation "measure (\<lambda>(E, C, it, st). maxiter C - it)") auto

section \<open>The entry point\<close>

text \<open>The prior of every latent: the covariance is the variance times the unit
  squared-exponential matrix, the inverse comes from its singular values.\<close>

fun init_prior ::
  "env \<Rightarrow> nat \<Rightarrow> vec \<Rightarrow> vec \<Rightarrow> nat list \<Rightarrow> pyerr + (mat list \<times> mat list)" where
  "init_prior E T var ws [] = Inr ([], [])"
| "init_prior E T var ws (l # ls) =
     (let S = mscale (var ! l) (sqexpcov E T (ws ! l) (Fin 1))
      in ebind (pinv_svd E S) (\<lambda>P.
         ebind (init_prior E T var ws ls) (\<lambda>(covs, invs).
           Inr (S # covs, P # invs))))"

text \<open>What \<open>variational\<close> returns, without the elapsed time, and with what it printed.\<close>

record result =
  r_lbound :: vec
  r_post_mean :: mat
  r_post_cov :: "mat list"
  r_alpha :: mat
  r_beta :: mat
  r_a0 :: mat
  r_b0 :: mat
  r_converged :: bool
  r_out :: "event list"

text \<open>The state before the loop: the initial values, unit step sizes, the rate of
  every bin and channel, and the first entry of the trace.\<close>

definition init_state ::
  "env \<Rightarrow> ctx \<Rightarrow> mat list \<Rightarrow> mat list \<Rightarrow> mat \<Rightarrow> mat \<Rightarrow> mat \<Rightarrow> state" where
  "init_state E C pcov pinv a1 b1 pm =
     (let A = cargs C; T = dimT C; N = dimN C; L = dimL C;
          s0 = \<lparr>beta = b1, alpha = a1, post_mean = pm, post_cov = pcov,
                prior_cov = pcov, prior_inv = pinv,
                rate = map (map (\<lambda>x. Fin 0)) (spike A),
                variance = prior_var A, w = prior_w A,
                bmat = NdArray (map (\<lambda>r. map (\<lambda>c. Fin (- ((real c - real r) ^ 2)))
                                        [0..<T]) [0..<T]),
                stepsize_alpha = replicate N (Fin 1),
                stepsize_beta = replicate N (Fin 1),
                stepsize_post_mean = replicate L (Fin 1),
                stepsize_w = replicate L (Fin 1),
                lbound = replicate (maxiter C) NInf,
                good_alpha = a1, good_beta = b1, good_post_mean = pm,
                good_post_cov = pcov,
                converged = False, out = []\<rparr>;
          s1 = s0\<lparr>rate := updaterate C s0 [0..<T] [0..<N]\<rparr>
      in s1\<lparr>lbound := (lbound s1)[0 := lb_of E C s1]\<rparr>)"

definition variational :: "env \<Rightarrow> args \<Rightarrow> control \<Rightarrow> pyerr + result" where
  "variational E A control =
     ebind (getitem control ''max iteration'') (\<lambda>maxiter_v.
     ebind (getitem control ''fixed-point iteration'') (\<lambda>fpinter.
     ebind (getitem control ''tol'') (\<lambda>tol_v.
     ebind (getitem control ''verbose'') (\<lambda>verbose_v.
       let T = length (spike A); N = ncols (spike A); L = ncols (prior_mean A)
       in ebind (init_prior E T (prior_var A) (prior_w A) [0..<L]) (\<lambda>(pcov, pinv).
          let reg = makeregressor E (spike A) (p A) (intercept A);
              pm = (case m0 A of None \<Rightarrow> prior_mean A | Some m \<Rightarrow> m)
          in ebind (case a0 A of
                      None \<Rightarrow>
                        (let r = randn E L N
                         in ebind (linalg_norm (concat r)) (\<lambda>nrm.
                              Inr (map (\<lambda>row. vdivs row (fdiv nrm (normofalpha A))) r)))
                    | Some a \<Rightarrow> Inr a) (\<lambda>a1.
             ebind (case b0 A of
                      None \<Rightarrow> linalg_lstsq E reg (spike A)
                    | Some b \<Rightarrow> Inr b) (\<lambda>b1.
             ebind (as_int maxiter_v) (\<lambda>mi.
               if mi < 0 then Inl ValueError
               else
                 let C = \<lparr>cargs = A, regressor = reg, maxiter = nat mi,
                          tol = as_flt tol_v, verbose = truthy verbose_v\<rparr>
                 in if mi = 0 then Inl IndexError
                    else
                      ebind (main_loop E C 1 (init_state E C pcov pinv a1 b1 pm))
                        (\<lambda>(it, st).
                           Inr \<lparr>r_lbound = take it (lbound st),
                                r_post_mean = post_mean st, r_post_cov = post_cov st,
                                r_alpha = alpha st, r_beta = beta st,
                                r_a0 = a1, r_b0 = b1,
                                r_converged = converged st, r_out = out st\<rparr>)))))))))"

section \<open>Acceptance of a tentative step\<close>

text \<open>A tentative step is accepted when the test that guards the rollback is false.\<close>

definition beta_accepted :: "env \<Rightarrow> ctx \<Rightarrow> nat \<Rightarrow> nat \<Rightarrow> vec \<Rightarrow> state \<Rightarrow> bool" where
  "beta_accepted E C it n sol st =
     (let lb = lb_of E C (beta_try C n (vscale (stepsize_beta st ! n) sol) st)
      in \<not> (isnan lb \<or> fless lb (lbound st ! (it - 1))))"

definition alpha_accepted :: "env \<Rightarrow> ctx \<Rightarrow> nat \<Rightarrow> nat \<Rightarrow> vec \<Rightarrow> state \<Rightarrow> bool" where
  "alpha_accepted E C it l sol st =
     (case alpha_try C l (vscale (stepsize_alpha st ! l) sol) st of
        Inl e \<Rightarrow> False
      | Inr st1 \<Rightarrow>
          \<not> (isnan (lb_of E C st1)
             \<or> fless (fsub (lb_of E C st1) (lbound st ! (it - 1))) (Fin 0)))"

definition post_mean_accepted ::
  "env \<Rightarrow> ctx \<Rightarrow> nat \<Rightarrow> nat \<Rightarrow> vec \<Rightarrow> mat \<Rightarrow> state \<Rightarrow> bool" where
  "post_mean_accepted E C it l grad hinv st =
     (let lb = lb_of E C
                 (post_mean_try C l (vscale (stepsize_post_mean st ! l) (matvec hinv grad)) st)
      in \<not> (isnan lb \<or> fless lb (lbound st ! (it - 1))))"

text \<open>A trace is non-decreasing when no entry compares below its predecessor and an
  entry is NaN only if its predecessor is.\<close>

fun nondecreasing :: "vec \<Rightarrow> bool" where
  "nondecreasing (x # y # ys) =
     (\<not> fless y x \<and> (isnan y \<longrightarrow> isnan x) \<and> nondecreasing (y # ys))"
| "nondecreasing ys = True"

text \<open>The bound of a state against a reference value \<open>B\<close>: equal to it, or a number
  that does not compare below it.\<close>

definition lb_ok :: "env \<Rightarrow> ctx \<Rightarrow> flt \<Rightarrow> state \<Rightarrow> bool" where
  "lb_ok E C B st =
     (lb_of E C st = B \<or> (\<not> isnan (lb_of E C st) \<and> \<not> fless (lb_of E C st) B))"

fun is_warning :: "event \<Rightarrow> bool" where
  "is_warning (Warning s) = True"
| "is_warning e = False"

definition no_warning :: "event list \<Rightarrow> bool" where
  "no_warning es = list_all (\<lambda>e. \<not> is_warning e) es"

text \<open>What the blocks of an iteration leave alone: the trace, the flag and the snapshot
  of the previous iteration; and they print no warning.\<close>

definition frame :: "state \<Rightarrow> state \<Rightarrow> bool" where
  "frame st st' =
     (lbound st' = lbound st \<and> converged st' = converged st
      \<and> good_alpha st' = good_alpha st \<and> good_beta st' = good_beta st
      \<and> good_post_mean st' = good_post_mean st \<and> good_post_cov st' = good_post_cov st
      \<and> (no_warning (out st) \<longrightarrow> no_warning (out st')))"

text \<open>The shapes of the docstring: \<open>spike\<close> and \<open>rate\<close> are \<open>T \<times> N\<close>, the regressor
  has \<open>T\<close> rows, \<open>beta\<close> has \<open>N\<close> columns, \<open>alpha\<close> is \<open>L \<times> N\<close>, the means are
  \<open>T \<times> L\<close>, and there is at least one time bin, one channel and one regressor.\<close>

definition is_mat :: "nat \<Rightarrow> nat \<Rightarrow> mat \<Rightarrow> bool" where
  "is_mat r c m = (length m = r \<and> list_all (\<lambda>row. length row = c) m)"

definition shapes :: "ctx \<Rightarrow> state \<Rightarrow> bool" where
  "shapes C st =
     (0 < dimT C \<and> 0 < dimN C
      \<and> is_mat (dimT C) (dimN C) (spike (cargs C))
      \<and> is_mat (dimT C) (length (beta st)) (regressor C)
      \<and> beta st \<noteq> [] \<and> is_mat (length (beta st)) (dimN C) (beta st)
      \<and> is_mat (dimL C) (dimN C) (alpha st)
      \<and> is_mat (dimT C) (dimL C) (prior_mean (cargs C))
      \<and> is_mat (dimT C) (dimL C) (post_mean st)
      \<and> is_mat (dimT C) (dimN C) (rate st))"

section \<open>The library on systems of order one and two\<close>

text \<open>
  Modelled from the spec: \<open>util.makeregressor\<close> is not among the sources. The design
  matrix has an intercept column and the \<open>p\<close> preceding rows of the observations,
  flattened, with zeros where the history is missing, as \<open>vb.py\<close> lays out its history
  matrix.
\<close>

definition makeregressor_spec :: "mat \<Rightarrow> nat \<Rightarrow> bool \<Rightarrow> mat" where
  "makeregressor_spec y ord icpt =
     map (\<lambda>t. (if icpt then [Fin 1] else [])
              @ replicate ((ord - t) * ncols y) (Fin 0)
              @ concat (take (min t ord) (drop (t - ord) y)))
       [0..<length y]"

text \<open>
  Modelled from the spec: \<open>util.sqexpcov\<close> is not among the sources. The squared
  exponential covariance of \<open>T\<close> equally spaced bins with inverse squared lengthscale
  \<open>omega\<close>, scaled by the variance (\<open>sqexp\<close> of \<open>simulation.py\<close> is \<open>exp(- omega * t ** 2)\<close>).
\<close>

definition sqexpcov_spec :: "nat \<Rightarrow> flt \<Rightarrow> flt \<Rightarrow> mat" where
  "sqexpcov_spec T omega var =
     map (\<lambda>i. map (\<lambda>j. fmul var (fexp (fneg (fmul omega (Fin ((real i - real j) ^ 2))))))
                [0..<T]) [0..<T]"

text \<open>The linear algebra routines on finite systems of order one, and the solver also
  on order two (Cramer's rule); an exactly singular system is a \<open>LinAlgError\<close>. Other
  arguments are outside this instance and answered by \<open>ValueError\<close>.\<close>

definition solve_small :: "mat \<Rightarrow> vec \<Rightarrow> pyerr + vec" where
  "solve_small H g =
     (case (H, g) of
        ([[Fin a]], [Fin g0]) \<Rightarrow>
          (if a = 0 then Inl LinAlgError else Inr [Fin (g0 / a)])
      | ([[Fin a, Fin b], [Fin c, Fin d]], [Fin g0, Fin h]) \<Rightarrow>
          (if a * d - b * c = 0 then Inl LinAlgError
           else Inr [Fin ((g0 * d - b * h) / (a * d - b * c)),
                     Fin ((a * h - g0 * c) / (a * d - b * c))])
      | _ \<Rightarrow> Inl ValueError)"

definition cholesky_small :: "mat \<Rightarrow> pyerr + mat" where
  "cholesky_small H =
     (case H of
        [[Fin a]] \<Rightarrow> (if 0 < a then Inr [[Fin (sqrt a)]] else Inl LinAlgError)
      | _ \<Rightarrow> Inl ValueError)"

definition lstsq_small :: "mat \<Rightarrow> mat \<Rightarrow> pyerr + mat" where
  "lstsq_small H B =
     (case (H, B) of
        ([[Fin a]], [[Fin b]]) \<Rightarrow> Inr [[Fin (if a = 0 then 0 else b / a)]]
      | _ \<Rightarrow> Inl ValueError)"

definition lstsq_vec_small :: "mat \<Rightarrow> vec \<Rightarrow> pyerr + vec" where
  "lstsq_vec_small H g =
     (case (H, g) of
        ([[Fin a]], [Fin b]) \<Rightarrow> Inr [Fin (if a = 0 then 0 else b / a)]
      | _ \<Rightarrow> Inl ValueError)"

definition svd_small :: "mat \<Rightarrow> pyerr + (mat \<times> vec \<times> mat)" where
  "svd_small H =
     (case H of
        [[Fin a]] \<Rightarrow> Inr ([[Fin (if a < 0 then - 1 else 1)]], [Fin \<bar>a\<bar>], [[Fin 1]])
      | _ \<Rightarrow> Inl ValueError)"

definition slogdet_small :: "mat \<Rightarrow> flt" where
  "slogdet_small H =
     (case H of
        [[Fin a]] \<Rightarrow> (if a = 0 then NInf else Fin (ln \<bar>a\<bar>))
      | _ \<Rightarrow> NaN)"

definition env_small :: env where
  "env_small =
     \<lparr>makeregressor = makeregressor_spec, sqexpcov = sqexpcov_spec,
      randn = (\<lambda>L N. replicate L (replicate N (Fin 1))),
      linalg_solve = solve_small, linalg_cholesky = cholesky_small,
      linalg_lstsq = lstsq_small, linalg_lstsq_vec = lstsq_vec_small,
      linalg_svd = svd_small, slogdet = slogdet_small\<rparr>"

section \<open>Concrete inputs\<close>

text \<open>One time bin, one channel, one latent, no lagged regressor; every block frozen.
  The other inputs below change a few fields of this one.\<close>

definition args_base :: args where
  "args_base =
     \<lparr>spike = [[Fin 0]], p = 0, prior_mean = [[Fin 0]], prior_var = [Fin 1],
      prior_w = [Fin 1], a0 = Some [[Fin 0]], b0 = Some [[Fin 0]], m0 = None,
      fixalpha = True, fixbeta = True, fixpostmean = True, fixpostcov = True,
      normofalpha = Fin 1, intercept = True, hyper = False\<rparr>"

definition control_of :: "int \<Rightarrow> flt \<Rightarrow> control" where
  "control_of n t =
     [''max iteration'' \<mapsto> CInt n, ''fixed-point iteration'' \<mapsto> CInt 3,
      ''tol'' \<mapsto> CFloat t, ''verbose'' \<mapsto> CBool False]"

text \<open>A context and a state of order one, given by their entries: the coefficient,
  the loading, the posterior mean, the covariance (prior and posterior), the rate, the
  step size of every block and the bound recorded before the iteration.\<close>

definition ctx_small :: "args \<Rightarrow> mat \<Rightarrow> ctx" where
  "ctx_small A reg =
     \<lparr>cargs = A, regressor = reg, maxiter = 2, tol = Fin (1 / 10 ^ 4), verbose = False\<rparr>"

definition state_small :: "mat \<Rightarrow> flt \<Rightarrow> flt \<Rightarrow> flt \<Rightarrow> flt \<Rightarrow> flt \<Rightarrow> flt \<Rightarrow> state" where
  "state_small b a m v r s lb =
     \<lparr>beta = b, alpha = [[a]], post_mean = [[m]], post_cov = [[[v]]],
      prior_cov = [[[v]]], prior_inv = [[[fdiv (Fin 1) v]]], rate = [[r]],
      variance = [v], w = [Fin 1], bmat = NdArray [[Fin 0]],
      stepsize_alpha = [s], stepsize_beta = [s], stepsize_post_mean = [s],
      stepsize_w = [s], lbound = [lb, NInf],
      good_alpha = [[a]], good_beta = b, good_post_mean = [[m]], good_post_cov = [[[v]]],
      converged = False, out = []\<rparr>"

text \<open>A channel observed with a first-order history over a single bin (the history
  column is zero), and a latent whose variance entry is negative.\<close>

definition ctx_w7b :: ctx where
  "ctx_w7b = ctx_small (args_base\<lparr>spike := [[Fin 2]], p := 1, fixbeta := False\<rparr>)
               [[Fin 1, Fin 0]]"

definition st_w7b :: state where
  "st_w7b = state_small [[Fin 0], [Fin 0]] (Fin 0) (Fin 0) (Fin 1) (Fin 1) (Fin 1)
              (Fin (- (3 / 2)))"

definition ctx_w7a :: ctx where
  "ctx_w7a = ctx_small (args_base\<lparr>spike := [[Fin 2]], fixalpha := False\<rparr>) [[Fin 1]]"

definition st_w7a :: state where
  "st_w7a = state_small [[Fin 0]] (Fin 0) (Fin 1) (Fin (- 1)) (Fin 1) (Fin 1) (Fin (- 1))"

text \<open>States in which a tentative step is rejected: a coefficient step with the
  oversized step size 1000, a loading step that moves the row from \<open>-1\<close> to \<open>1\<close> and
  makes the exponential overflow, and a posterior-mean step that leaves the prior mean.\<close>

definition ctx_w2b :: ctx where
  "ctx_w2b = ctx_small (args_base\<lparr>spike := [[Fin 2]], fixbeta := False\<rparr>) [[Fin 1]]"

definition st_w2b :: state where
  "st_w2b = state_small [[Fin 0]] (Fin 0) (Fin 0) (Fin 1) (Fin 1) (Fin 1000) (Fin (- (3 / 2)))"

definition ctx_w2a :: ctx where
  "ctx_w2a = ctx_small (args_base\<lparr>spike := [[Fin 1]], fixalpha := False\<rparr>) [[Fin 1]]"

definition st_w2a :: state where
  "st_w2a = state_small [[Fin 0]] (Fin (- 1)) (Fin 1000) (Fin 1) (Fin finfo_eps) (Fin 1)
              (Fin (- 1000 - finfo_eps - 500000 - 1 / 2))"

definition ctx_w2m :: ctx where
  "ctx_w2m = ctx_small (args_base\<lparr>prior_mean := [[Fin 1]], fixpostmean := False\<rparr>) [[Fin 1]]"

definition st_w2m :: state where
  "st_w2m = state_small [[Fin 0]] (Fin 0) (Fin 1) (Fin 1) (Fin 1) (Fin 1) (Fin (- (3 / 2)))"

text \<open>A coefficient at which the exponential overflows, so that the rate stays at the
  largest finite number.\<close>

definition args_eq :: args where
  "args_eq = args_base\<lparr>b0 := Some [[Fin 1000]], fixbeta := False\<rparr>"

text \<open>A run in which only the posterior covariance is updated: loading 6, coefficient
  \<open>-18\<close>, so that the initial rate is \<open>exp 0 = 1\<close>; its context, its initial state and
  what it returns after one iteration.\<close>

definition args_cov :: args where
  "args_cov = args_base\<lparr>a0 := Some [[Fin 6]], b0 := Some [[Fin (- 18)]], fixpostcov := False\<rparr>"

definition res_cov :: result where
  "res_cov =
     \<lparr>r_lbound = [Fin (- (3 / 2)), Fin (ln (1 / 37) / 2 - 1 / 74 - exp (- (648 / 37)))],
      r_post_mean = [[Fin 0]], r_post_cov = [[[Fin (1 / 37)]]],
      r_alpha = [[Fin 6]], r_beta = [[Fin (- 18)]], r_a0 = [[Fin 6]],
      r_b0 = [[Fin (- 18)]], r_converged = False, r_out = []\<rparr>"



text \<open>A run in which only the posterior mean is updated: it starts at 1 while the prior
  mean is 0, and the Newton step (followed by the centring) takes it to 0.\<close>

definition args_pm :: args where
  "args_pm = args_base\<lparr>m0 := Some [[Fin 1]], fixpostmean := False\<rparr>"

definition res_pm :: result where
  "res_pm =
     \<lparr>r_lbound = [Fin (- 2), Fin (- (3 / 2))], r_post_mean = [[Fin 0]],
      r_post_cov = [[[Fin 1]]], r_alpha = [[Fin 0]], r_beta = [[Fin 0]],
      r_a0 = [[Fin 0]], r_b0 = [[Fin 0]], r_converged = False, r_out = []\<rparr>"

text \<open>Two channels with the counts 1 and 2 in one bin, both coefficients 0: the
  gradient of the first channel is 0 and that of the second is 1. Only the
  coefficients are updated.\<close>

definition args_brk :: args where
  "args_brk = args_base\<lparr>spike := [[Fin 1, Fin 2]], a0 := Some [[Fin 0, Fin 0]],
                 b0 := Some [[Fin 0, Fin 0]], fixbeta := False\<rparr>"

definition res_brk :: result where
  "res_brk =
     \<lparr>r_lbound = [Fin (- (5 / 2)), Fin (- (5 / 2))], r_post_mean = [[Fin 0]],
      r_post_cov = [[[Fin 1]]], r_alpha = [[Fin 0, Fin 0]], r_beta = [[Fin 0, Fin 0]],
      r_a0 = [[Fin 0, Fin 0]], r_b0 = [[Fin 0, Fin 0]], r_converged = True, r_out = []\<rparr>"

definition ctx_brk :: ctx where
  "ctx_brk = ctx_small args_brk [[Fin 1]]"

definition st_brk :: state where
  "st_brk = init_state env_small ctx_brk [[[Fin 1]]] [[[Fin 1]]] [[Fin 0, Fin 0]]
              [[Fin 0, Fin 0]] [[Fin 0]]"

text \<open>A run that reaches the hyperparameter step of the fifth iteration: the
  coefficient \<open>-2^52\<close> keeps the rate at its floor \<open>2^-52\<close>, the loading \<open>2^26\<close> makes the
  curvature \<open>rate * alpha^2\<close> equal to 1, so that the posterior covariance is \<open>1/2\<close> from
  the first iteration on; the tolerance 0 keeps the loop going. Then the context and
  the initial state of that run, the bound it records from the first iteration on, the
  state in which its loop stops and what it returns.\<close>

definition args_hyp :: args where
  "args_hyp = args_base\<lparr>a0 := Some [[Fin (2 ^ 26)]], b0 := Some [[Fin (- (2 ^ 52))]],
                 fixpostcov := False, hyper := True\<rparr>"

definition ctx_hyp :: ctx where
  "ctx_hyp = (ctx_small args_hyp [[Fin 1]])\<lparr>maxiter := 6, tol := Fin 0\<rparr>"

definition st_hyp :: state where
  "st_hyp = init_state env_small ctx_hyp [[[Fin 1]]] [[[Fin 1]]] [[Fin (2 ^ 26)]]
              [[Fin (- (2 ^ 52))]] [[Fin 0]]"

definition lb_hyp :: flt where
  "lb_hyp = Fin (ln (1 / 2) / 2 - 1 / 4 - 1 / 2 ^ 52)"

definition st_hyp_end :: state where
  "st_hyp_end =
     \<lparr>beta = [[Fin (- (2 ^ 52))]], alpha = [[Fin (2 ^ 26)]], post_mean = [[Fin 0]],
      post_cov = [[[Fin (1 / 2)]]], prior_cov = [[[Fin 1]]], prior_inv = [[[Fin 1]]],
      rate = [[Fin (1 / 2 ^ 52)]], variance = [Fin (1 / 2)], w = [Fin (1 / 2)],
      bmat = Matrix [[Fin 2]],
      stepsize_alpha = [Fin 1], stepsize_beta = [Fin 1], stepsize_post_mean = [Fin 1],
      stepsize_w = [Fin (1 / 2)],
      lbound = [Fin (- (1 / 2) - 1 / 2 ^ 52), lb_hyp, lb_hyp, lb_hyp, lb_hyp, lb_hyp],
      good_alpha = [[Fin (2 ^ 26)]], good_beta = [[Fin (- (2 ^ 52))]],
      good_post_mean = [[Fin 0]], good_post_cov = [[[Fin (1 / 2)]]],
      converged = False,
      out = [PrintHyper 0 (Fin (1 / 2)) (Fin (1 / 2)), PrintHyperFailed]\<rparr>"

definition res_hyp :: result where
  "res_hyp =
     \<lparr>r_lbound = lbound st_hyp_end, r_post_mean = [[Fin 0]],
      r_post_cov = [[[Fin (1 / 2)]]], r_alpha = [[Fin (2 ^ 26)]],
      r_beta = [[Fin (- (2 ^ 52))]], r_a0 = [[Fin (2 ^ 26)]], r_b0 = [[Fin (- (2 ^ 52))]],
      r_converged = False, r_out = out st_hyp_end\<rparr>"



text \<open>Two channels with the loadings \<open>(3, 4)\<close> of one latent and the target norm 5;
  the coefficients \<open>-1000\<close> keep both rates at their floor.\<close>

definition ctx_w5 :: ctx where
  "ctx_w5 = ctx_small (args_base\<lparr>spike := [[Fin 0, Fin 0]], a0 := Some [[Fin 3, Fin 4]],
                          b0 := Some [[Fin (- 1000), Fin (- 1000)]], fixalpha := False,
                          normofalpha := Fin 5\<rparr>) [[Fin 1]]"

definition st_w5 :: state where
  "st_w5 = init_state env_small ctx_w5 [[[Fin 1]]] [[[Fin 1]]] [[Fin 3, Fin 4]]
             [[Fin (- 1000), Fin (- 1000)]] [[Fin 0]]"

section \<open>Properties\<close>

declare main_loop.simps [simp del]

lemmas vec_defs = dot_def fsum_def vadd_def vsub_def vmul_def vscale_def vdivs_def vsubs_def
  vsq_def ncols_def col_def set_col_def set2_def transpose_m_def matvec_def matmul_def
  madd_def msub_def mmul_elem_def mscale_def diag_def diagonal_def trace_def identity_def
  np_sum_def np_mean_def fsub_def isnan_def

lemmas small_defs = env_small_def makeregressor_spec_def sqexpcov_spec_def solve_small_def
  cholesky_small_def lstsq_small_def lstsq_vec_small_def svd_small_def slogdet_small_def

lemmas step_defs = updaterate_def saferate_def lograte_def lb_of_def lowerbound_def lb_term_def
  dimT_def dimN_def dimL_def eps_def linalg_norm_inf_def linalg_norm_def
  deflation_def inflation_def thld_def ebind_def

lemmas run_defs = variational_def init_state_def getitem_def pinv_svd_def iteration_def blocks_def finish_def
  changes_def change_of_def py_max_def np_max_def max_abs_diff_def max_abs_diff3_def
  fmaximum_def woodbury_def grad_b_def neg_hess_b_def beta_step_def beta_try_def

lemmas block_defs = grad_m_def post_mean_step_def post_mean_try_def grad_a_def neg_hess_a_def
  alpha_step_def alpha_try_def new_var_def grad_w_def hyper_step_def

lemma upt_Suc0: "[0..<Suc 0] = [0]"
  by simp

lemma finfo_pos: "0 < finfo_eps" "0 < finfo_max" "\<not> finfo_max < 0"
  by (simp_all add: finfo_eps_def finfo_max_def)

subsection \<open>The rate is positive and finite\<close>

text \<open>
  C4 (as the code has it). Whatever the regressor row, the coefficients and the
  posterior moments are, \<open>saferate\<close> of \<open>optimization.py\<close> returns a finite, strictly
  positive number: the exponential itself when that is finite and positive, the largest
  finite number when it overflowed to infinity, and machine epsilon \<open>2 ** -52\<close> when
  it is NaN, zero or negative.
\<close>

theorem saferate_positive_finite:
  "saferate t n R m V b a =
     (case fexp (lograte t n R m V b a) of
        Fin x \<Rightarrow> if 0 < x then Fin x else Fin finfo_eps
      | PInf \<Rightarrow> Fin finfo_max
      | NInf \<Rightarrow> Fin finfo_eps
      | NaN \<Rightarrow> Fin finfo_eps)
   \<and> (\<exists>r. saferate t n R m V b a = Fin r \<and> 0 < r)"
  by (cases "fexp (lograte t n R m V b a)") (simp_all add: saferate_def Let_def finfo_pos)

theorem saferate_positive_finite_witness:
  "\<exists>r. saferate 0 0 [[Fin 1]] [[Fin 0]] [[[Fin 1]]] [[Fin 1000]] [[Fin 0]] = Fin r \<and> 0 < r"
  using saferate_positive_finite [of 0 0 "[[Fin 1]]" "[[Fin 0]]" "[[[Fin 1]]]" "[[Fin 1000]]"
      "[[Fin 0]]"]
  by blast

text \<open>
  With the coefficient \<open>-1000\<close> the exponential underflows to zero. The floor that
  \<open>saferate\<close> then returns is machine epsilon, far above the smallest positive binary64
  numbers (normal or subnormal); and \<open>saferate\<close> of \<open>vb.py\<close>, which has no floor,
  returns zero.
\<close>

theorem saferate_floor_counterexample:
  "saferate 0 0 [[Fin 1]] [[Fin 0]] [[[Fin 1]]] [[Fin (- 1000)]] [[Fin 0]] = Fin finfo_eps
   \<and> finfo_smallest_subnormal < finfo_eps \<and> finfo_tiny < finfo_eps
   \<and> vb_saferate 0 0 [[Fin 1]] [[Fin 0]] [[[Fin 1]]] [[Fin (- 1000)]] [[Fin 0]] = Fin 0"
  by (simp add: saferate_def vb_saferate_def lograte_def dot_def fsum_def col_def vmul_def
      vsq_def finfo_eps_def finfo_smallest_subnormal_def finfo_tiny_def)

subsection \<open>The default configuration\<close>

text \<open>
  C10. With \<open>default_control\<close>, the default value of the parameter \<open>control\<close>,
  \<open>variational\<close> raises \<open>KeyError\<close> whatever its other arguments are: the dictionary
  has the key \<open>maxiter\<close> and the function reads \<open>control['max iteration']\<close> before
  it does anything else.
\<close>

theorem default_control_keyerror:
  "variational E A default_control = Inl KeyError"
  by (simp add: variational_def default_control_def getitem_def ebind_def)

theorem default_control_keyerror_witness:
  "variational env_small args_base default_control = Inl KeyError"
  using default_control_keyerror [of env_small args_base] .

subsection \<open>A singular Newton system\<close>

lemma beta_solve_error:
  assumes "linalg_norm_inf (grad_b C st n) = Inr g" "\<not> fless g eps"
    "linalg_solve E (neg_hess_b C st n) (grad_b C st n) = Inl LinAlgError"
  shows "beta_loop E C it (n # ns) st
         = beta_loop E C it ns (st\<lparr>out := out st @ [PrintError ''beta'']\<rparr>)"
  by (simp add: Let_def assms)

lemma alpha_solve_error:
  assumes "linalg_norm_inf (grad_a C st l) = Inr g" "\<not> fless g eps"
    "l < length (stepsize_alpha st)"
    "linalg_solve E (neg_hess_a C st l) (grad_a C st l) = Inl LinAlgError"
  shows "alpha_loop E C it (l # ls) st
         = alpha_loop E C it ls (st\<lparr>out := out st @ [PrintError ''alpha'']\<rparr>)"
proof -
  have "\<not> length (stepsize_alpha st) \<le> l"
    using assms(3) by simp
  then show ?thesis
    by (simp add: Let_def assms(1,2,4))
qed

text \<open>
  C7. When the solver raises \<open>LinAlgError\<close> for the Newton system of a channel (for
  \<open>beta\<close>) or of a latent (for \<open>alpha\<close>), the loop goes on with the remaining blocks
  from the same state: nothing but the printed message is added, and no error is
  returned for this block. The gradient is not below the threshold (else the loop was
  left before the solver ran) and, for \<open>alpha\<close>, the step size of the block exists.
\<close>

theorem singular_solve_skips_block:
  "(linalg_norm_inf (grad_b C st n) = Inr g \<and> \<not> fless g eps
      \<and> linalg_solve E (neg_hess_b C st n) (grad_b C st n) = Inl LinAlgError
    \<longrightarrow> beta_loop E C it (n # ns) st
          = beta_loop E C it ns (st\<lparr>out := out st @ [PrintError ''beta'']\<rparr>))
   \<and> (linalg_norm_inf (grad_a C' st' l) = Inr g' \<and> \<not> fless g' eps
      \<and> l < length (stepsize_alpha st')
      \<and> linalg_solve E (neg_hess_a C' st' l) (grad_a C' st' l) = Inl LinAlgError
    \<longrightarrow> alpha_loop E C' it (l # ls) st'
          = alpha_loop E C' it ls (st'\<lparr>out := out st' @ [PrintError ''alpha'']\<rparr>))"
  using beta_solve_error alpha_solve_error by blast

text \<open>A channel whose only history column is zero has a singular system of order two;
  a latent with a negative variance entry can have a zero curvature.\<close>

theorem singular_solve_skips_block_witness:
  "linalg_norm_inf (grad_b ctx_w7b st_w7b 0) = Inr (Fin 1) \<and> \<not> fless (Fin 1) eps
   \<and> linalg_solve env_small (neg_hess_b ctx_w7b st_w7b 0) (grad_b ctx_w7b st_w7b 0)
       = Inl LinAlgError
   \<and> beta_loop env_small ctx_w7b 1 [0] st_w7b
       = Inr (st_w7b\<lparr>out := [PrintError ''beta'']\<rparr>)
   \<and> linalg_norm_inf (grad_a ctx_w7a st_w7a 0) = Inr (Fin 1)
   \<and> 0 < length (stepsize_alpha st_w7a)
   \<and> linalg_solve env_small (neg_hess_a ctx_w7a st_w7a 0) (grad_a ctx_w7a st_w7a 0)
       = Inl LinAlgError
   \<and> alpha_loop env_small ctx_w7a 1 [0] st_w7a
       = Inr (st_w7a\<lparr>out := [PrintError ''alpha'']\<rparr>)"
proof -
  have b1: "linalg_norm_inf (grad_b ctx_w7b st_w7b 0) = Inr (Fin 1)"
    by (simp add: grad_b_def ctx_w7b_def st_w7b_def state_small_def ctx_small_def args_base_def
        linalg_norm_inf_def vec_defs upt_Suc0 numeral_2_eq_2)
  have b2: "\<not> fless (Fin 1) eps"
    by (simp add: eps_def finfo_eps_def)
  have b3: "linalg_solve env_small (neg_hess_b ctx_w7b st_w7b 0) (grad_b ctx_w7b st_w7b 0)
            = Inl LinAlgError"
    by (simp add: grad_b_def neg_hess_b_def ctx_w7b_def st_w7b_def state_small_def ctx_small_def
        args_base_def small_defs vec_defs upt_Suc0 numeral_2_eq_2)
  have a1: "linalg_norm_inf (grad_a ctx_w7a st_w7a 0) = Inr (Fin 1)"
    by (simp add: grad_a_def ctx_w7a_def st_w7a_def state_small_def ctx_small_def args_base_def
        linalg_norm_inf_def vec_defs upt_Suc0)
  have a2: "0 < length (stepsize_alpha st_w7a)"
    by (simp add: st_w7a_def state_small_def)
  have a3: "linalg_solve env_small (neg_hess_a ctx_w7a st_w7a 0) (grad_a ctx_w7a st_w7a 0)
            = Inl LinAlgError"
    by (simp add: grad_a_def neg_hess_a_def ctx_w7a_def st_w7a_def state_small_def ctx_small_def
        args_base_def small_defs vec_defs upt_Suc0 Let_def)
  have o1: "out st_w7b = []" "out st_w7a = []"
    by (simp_all add: st_w7b_def st_w7a_def state_small_def)
  from singular_solve_skips_block [of ctx_w7b st_w7b 0 "Fin 1" env_small 1 "[]" ctx_w7a st_w7a 0
      "Fin 1" "[]"] b1 b2 b3 a1 a2 a3 o1
  show ?thesis by simp
qed

subsection \<open>Rollback of a rejected step\<close>

lemma set_col_restore: "set_col (set_col m n v) n (col m n) = m"
  by (rule nth_equalityI) (simp_all add: set_col_def col_def)

lemma set_col_set2: "set_col (set2 r i n x) n v = set_col r n v"
proof -
  have "(r[i := (r ! i)[n := x]] ! t)[n := v ! t] = (r ! t)[n := v ! t]" if "t < length r" for t
    using that by (cases "t = i") simp_all
  then show ?thesis by (simp add: set_col_def set2_def)
qed

lemma product_single: "List.product rows [n] = map (\<lambda>t. (t, n)) rows"
  by (induction rows) simp_all

lemma set_col_foldl_set2:
  "set_col (foldl (\<lambda>r (row, c). set2 r row c (f row c)) r0 (map (\<lambda>t. (t, n)) rows)) n v
   = set_col r0 n v"
  by (induction rows arbitrary: r0) (simp_all add: set_col_set2)

lemma set_col_id: "set_col m n (col m n) = m"
  by (rule nth_equalityI) (simp_all add: set_col_def col_def)

lemma updaterate_col: "set_col (updaterate C st rows [n]) n v = set_col (rate st) n v"
  by (simp add: updaterate_def product_single set_col_foldl_set2)

lemma beta_step_reject:
  assumes "\<not> beta_accepted E C it n sol st"
  shows "beta (beta_step E C it n grad H sol st) = beta st
    \<and> rate (beta_step E C it n grad H sol st) = rate st
    \<and> stepsize_beta (beta_step E C it n grad H sol st)
         = (stepsize_beta st)[n := fadd (fmul (stepsize_beta st ! n) deflation) eps]"
proof -
  define st1 where "st1 = beta_try C n (vscale (stepsize_beta st ! n) sol) st"
  have rej: "isnan (lb_of E C st1) \<or> fless (lb_of E C st1) (lbound st ! (it - 1))"
    using assms by (simp add: beta_accepted_def st1_def Let_def)
  have b1: "set_col (beta st1) n (col (beta st) n) = beta st"
    by (simp add: st1_def beta_try_def Let_def set_col_restore)
  have r1: "set_col (rate st1) n (col (rate st) n) = rate st"
    by (simp add: st1_def beta_try_def Let_def updaterate_col set_col_id)
  have "beta_step E C it n grad H sol st =
        st1\<lparr>stepsize_beta :=
               (stepsize_beta st)[n := fadd (fmul (stepsize_beta st ! n) deflation) eps],
            beta := set_col (beta st1) n (col (beta st) n),
            rate := set_col (rate st1) n (col (rate st) n)\<rparr>"
    using rej unfolding beta_step_def Let_def st1_def [symmetric] by (simp only: if_True)
  then show ?thesis by (simp add: b1 r1)
qed

lemma alpha_step_reject:
  assumes "alpha_step E C it l grad H sol st = Inr st'"
    and "\<not> alpha_accepted E C it l sol st"
  shows "alpha st' = alpha st \<and> rate st' = rate st
    \<and> stepsize_alpha st'
         = (stepsize_alpha st)[l := fadd (fmul (stepsize_alpha st ! l) deflation) eps]"
proof -
  obtain st1 where t: "alpha_try C l (vscale (stepsize_alpha st ! l) sol) st = Inr st1"
    using assms(1) by (cases "alpha_try C l (vscale (stepsize_alpha st ! l) sol) st")
      (simp_all add: alpha_step_def Let_def ebind_def)
  have rej: "isnan (lb_of E C st1)
             \<or> fless (fsub (lb_of E C st1) (lbound st ! (it - 1))) (Fin 0)"
    using assms(2) t by (simp add: alpha_accepted_def)
  have a1: "\<exists>x. alpha st1 = (alpha st)[l := x]"
    using t by (auto simp: alpha_try_def Let_def ebind_def split: sum.splits)
  have "st' = st1\<lparr>stepsize_alpha :=
               (stepsize_alpha st)[l := fadd (fmul (stepsize_alpha st ! l) deflation) eps],
            alpha := (alpha st1)[l := alpha st ! l],
            rate := rate st\<rparr>"
    using assms(1) rej t by (auto simp: alpha_step_def Let_def ebind_def)
  then show ?thesis using a1 by auto
qed

lemma post_mean_step_reject:
  assumes "post_mean_step E C it l grad hinv st = Inr st'"
    and "\<not> post_mean_accepted E C it l grad hinv st"
  shows "post_mean st' = post_mean st \<and> rate st' = rate st
    \<and> stepsize_post_mean st'
         = (stepsize_post_mean st)
             [l := fadd (fmul (stepsize_post_mean st ! l) deflation) eps]"
proof -
  define st1 where
    "st1 = post_mean_try C l (vscale (stepsize_post_mean st ! l) (matvec hinv grad)) st"
  have rej: "isnan (lb_of E C st1) \<or> fless (lb_of E C st1) (lbound st ! (it - 1))"
    using assms(2) by (simp add: post_mean_accepted_def st1_def Let_def)
  have m1: "set_col (post_mean st1) l (col (post_mean st) l) = post_mean st"
    by (simp add: st1_def post_mean_try_def Let_def set_col_restore)
  have "st' = st1\<lparr>stepsize_post_mean :=
               (stepsize_post_mean st)
                 [l := fadd (fmul (stepsize_post_mean st ! l) deflation) eps],
            post_mean := set_col (post_mean st1) l (col (post_mean st) l),
            rate := rate st\<rparr>"
    using assms(1) rej unfolding post_mean_step_def Let_def st1_def [symmetric]
    by (auto simp: ebind_def split: sum.splits)
  then show ?thesis by (simp add: m1)
qed

lemma deflate_positive:
  assumes "fless (Fin 0) s"
  shows "fless (Fin 0) (fadd (fmul s deflation) eps)"
  using assms by (cases s) (simp_all add: deflation_def eps_def finfo_eps_def)


text \<open>
  C2 (as the code has it). A tentative block step of \<open>beta\<close>, \<open>alpha\<close> or the
  posterior mean is rejected when the recomputed bound is NaN or lower than the bound
  recorded by the previous outer iteration. Then the parameter block and the rate are
  exactly what they were before the step, and the step size of the block becomes
  \<open>deflation\<close> times its old value plus \<open>eps\<close>, which is positive when the old value
  was. A bound equal to the previous one is not a rejection.
\<close>

theorem rollback_restores:
  "(\<not> beta_accepted E C it n sol st \<longrightarrow>
      beta (beta_step E C it n grad H sol st) = beta st
      \<and> rate (beta_step E C it n grad H sol st) = rate st
      \<and> stepsize_beta (beta_step E C it n grad H sol st)
          = (stepsize_beta st)[n := fadd (fmul (stepsize_beta st ! n) deflation) eps])
   \<and> (alpha_step E Ca ita l grada Ha sola sta = Inr sta' \<and> \<not> alpha_accepted E Ca ita l sola sta
      \<longrightarrow> alpha sta' = alpha sta \<and> rate sta' = rate sta
          \<and> stepsize_alpha sta'
              = (stepsize_alpha sta)[l := fadd (fmul (stepsize_alpha sta ! l) deflation) eps])
   \<and> (post_mean_step E Cm itm k gradm hinv stm = Inr stm'
      \<and> \<not> post_mean_accepted E Cm itm k gradm hinv stm
      \<longrightarrow> post_mean stm' = post_mean stm \<and> rate stm' = rate stm
          \<and> stepsize_post_mean stm'
              = (stepsize_post_mean stm)
                  [k := fadd (fmul (stepsize_post_mean stm ! k) deflation) eps])
   \<and> (fless (Fin 0) s \<longrightarrow> fless (Fin 0) (fadd (fmul s deflation) eps))"
  using beta_step_reject [of E C it n sol st grad H]
    alpha_step_reject [of E Ca ita l grada Ha sola sta sta']
    post_mean_step_reject [of E Cm itm k gradm hinv stm stm']
    deflate_positive [of s]
  by blast

lemma w2b: "\<not> beta_accepted env_small ctx_w2b 1 0 [Fin 1] st_w2b"
  by (simp add: beta_accepted_def beta_try_def ctx_w2b_def st_w2b_def state_small_def
      ctx_small_def args_base_def step_defs small_defs vec_defs upt_Suc0 Let_def
      finfo_max_def finfo_eps_def)

lemma w2a: "\<not> alpha_accepted env_small ctx_w2a 1 0 [Fin 3] st_w2a"
  by (simp add: alpha_accepted_def alpha_try_def ctx_w2a_def st_w2a_def state_small_def
      ctx_small_def args_base_def step_defs small_defs vec_defs upt_Suc0 Let_def
      finfo_max_def finfo_eps_def)

lemma w2a': "\<exists>st'. alpha_step env_small ctx_w2a 1 0 [Fin 1] [[Fin 1]] [Fin 3] st_w2a = Inr st'"
  by (simp add: alpha_step_def alpha_try_def ctx_w2a_def st_w2a_def state_small_def
      ctx_small_def args_base_def step_defs small_defs vec_defs upt_Suc0 Let_def
      finfo_max_def finfo_eps_def)

lemma w2m: "\<not> post_mean_accepted env_small ctx_w2m 1 0 [Fin 1] [[Fin 1]] st_w2m"
  by (simp add: post_mean_accepted_def post_mean_try_def ctx_w2m_def st_w2m_def state_small_def
      ctx_small_def args_base_def step_defs small_defs vec_defs upt_Suc0 Let_def
      finfo_max_def finfo_eps_def)

lemma w2m': "\<exists>st'. post_mean_step env_small ctx_w2m 1 0 [Fin 1] [[Fin 1]] st_w2m = Inr st'"
  by (simp add: post_mean_step_def post_mean_try_def ctx_w2m_def st_w2m_def state_small_def
      ctx_small_def args_base_def step_defs small_defs vec_defs upt_Suc0 Let_def
      finfo_max_def finfo_eps_def)


theorem rollback_restores_witness:
  "\<not> beta_accepted env_small ctx_w2b 1 0 [Fin 1] st_w2b
   \<and> beta (beta_step env_small ctx_w2b 1 0 [Fin 1] [[Fin 1]] [Fin 1] st_w2b) = beta st_w2b
   \<and> rate (beta_step env_small ctx_w2b 1 0 [Fin 1] [[Fin 1]] [Fin 1] st_w2b) = rate st_w2b
   \<and> \<not> alpha_accepted env_small ctx_w2a 1 0 [Fin 3] st_w2a
   \<and> (\<exists>st'. alpha_step env_small ctx_w2a 1 0 [Fin 1] [[Fin 1]] [Fin 3] st_w2a = Inr st'
          \<and> alpha st' = alpha st_w2a \<and> rate st' = rate st_w2a)
   \<and> \<not> post_mean_accepted env_small ctx_w2m 1 0 [Fin 1] [[Fin 1]] st_w2m
   \<and> (\<exists>st'. post_mean_step env_small ctx_w2m 1 0 [Fin 1] [[Fin 1]] st_w2m = Inr st'
          \<and> post_mean st' = post_mean st_w2m \<and> rate st' = rate st_w2m)
   \<and> fless (Fin 0) (Fin 1) \<and> fless (Fin 0) (fadd (fmul (Fin 1) deflation) eps)"
proof -
  obtain sa where sa: "alpha_step env_small ctx_w2a 1 0 [Fin 1] [[Fin 1]] [Fin 3] st_w2a = Inr sa"
    using w2a' by blast
  obtain sm where sm: "post_mean_step env_small ctx_w2m 1 0 [Fin 1] [[Fin 1]] st_w2m = Inr sm"
    using w2m' by blast
  have p: "fless (Fin 0) (Fin 1)"
    by simp
  from rollback_restores [where E = env_small and C = ctx_w2b and it = 1 and n = 0
      and sol = "[Fin 1]" and st = st_w2b and grad = "[Fin 1]" and H = "[[Fin 1]]"
      and Ca = ctx_w2a and ita = 1 and l = 0 and grada = "[Fin 1]" and Ha = "[[Fin 1]]"
      and sola = "[Fin 3]" and sta = st_w2a and sta' = sa
      and Cm = ctx_w2m and itm = 1 and k = 0 and gradm = "[Fin 1]" and hinv = "[[Fin 1]]"
      and stm = st_w2m and stm' = sm and s = "Fin 1"]
    w2b w2a w2m sa sm p
  show ?thesis by blast
qed

text \<open>
  One bin, one channel, coefficient 1000. The rate is the largest finite number before
  and after the Newton step, so the recomputed bound equals the recorded one: it did
  not increase. The step is kept all the same: \<open>beta\<close> is 999 at the end, not 1000.
\<close>

theorem equal_bound_step_kept_counterexample:
  "variational env_small args_eq (control_of 2 (Fin (1 / 10 ^ 4))) =
     Inr \<lparr>r_lbound = [Fin (- finfo_max - 1 / 2), Fin (- finfo_max - 1 / 2)],
          r_post_mean = [[Fin 0]], r_post_cov = [[[Fin 1]]],
          r_alpha = [[Fin 0]], r_beta = [[Fin 999]], r_a0 = [[Fin 0]],
          r_b0 = [[Fin 1000]], r_converged = False, r_out = []\<rparr>"
  by (simp add: args_eq_def args_base_def control_of_def run_defs step_defs small_defs vec_defs
      Let_def upt_Suc0 main_loop.simps numeral_2_eq_2 finfo_max_def finfo_eps_def)

subsection \<open>What the blocks of an iteration leave alone\<close>

lemma frame_refl: "frame st st"
  by (simp add: frame_def)

lemma frame_trans: "frame a b \<Longrightarrow> frame b c \<Longrightarrow> frame a c"
  by (simp add: frame_def)

lemma frame_print: "\<not> is_warning e \<Longrightarrow> frame st (st\<lparr>out := out st @ [e]\<rparr>)"
  by (simp add: frame_def no_warning_def)

lemma beta_step_frame: "frame st (beta_step E C it n grad H sol st)"
  by (simp add: beta_step_def beta_try_def frame_def Let_def)

lemma beta_loop_frame: "beta_loop E C it ns st = Inr st' \<Longrightarrow> frame st st'"
proof (induction ns arbitrary: st)
  case Nil
  then show ?case by (simp add: frame_refl)
next
  case (Cons n ns)
  have p: "frame st (st\<lparr>out := out st @ [PrintError ''beta'']\<rparr>)"
    by (rule frame_print) simp
  from Cons.prems show ?case
    by (auto simp: Let_def frame_refl split: sum.splits if_splits
        intro: frame_trans [OF p Cons.IH] frame_trans [OF beta_step_frame Cons.IH])
qed

lemma alpha_step_frame: "alpha_step E C it l grad H sol st = Inr st' \<Longrightarrow> frame st st'"
  by (auto simp: alpha_step_def alpha_try_def frame_def Let_def ebind_def
      split: sum.splits if_splits)

lemma alpha_loop_frame: "alpha_loop E C it ls st = Inr st' \<Longrightarrow> frame st st'"
proof (induction ls arbitrary: st)
  case Nil
  then show ?case by (simp add: frame_refl)
next
  case (Cons l ls)
  have p: "frame st (st\<lparr>out := out st @ [PrintError ''alpha'']\<rparr>)"
    by (rule frame_print) simp
  from Cons.prems show ?case
    by (auto simp: Let_def frame_refl ebind_def split: sum.splits if_splits
        intro: frame_trans [OF p Cons.IH] frame_trans [OF alpha_step_frame Cons.IH])
qed

lemma post_mean_step_frame:
  "post_mean_step E C it l grad hinv st = Inr st' \<Longrightarrow> frame st st'"
  by (auto simp: post_mean_step_def post_mean_try_def frame_def Let_def ebind_def
      split: sum.splits if_splits)

lemma post_mean_loop_frame: "post_mean_loop E C it ls st = Inr st' \<Longrightarrow> frame st st'"
proof (induction ls arbitrary: st)
  case Nil
  then show ?case by (simp add: frame_refl)
next
  case (Cons l ls)
  have p: "frame st (st\<lparr>w := a, bmat := b\<rparr>)" for a b
    by (simp add: frame_def)
  from Cons.prems show ?case
    by (auto simp: Let_def ebind_def p split: sum.splits if_splits prod.splits
        intro: frame_trans [OF p frame_trans [OF post_mean_step_frame Cons.IH]])
qed

lemma post_cov_loop_frame: "post_cov_loop E C ls st = Inr st' \<Longrightarrow> frame st st'"
proof (induction ls arbitrary: st)
  case Nil
  then show ?case by (simp add: frame_refl)
next
  case (Cons l ls)
  have p: "frame st (st\<lparr>w := a, bmat := b, post_cov := c, rate := r\<rparr>)" for a b c r
    by (simp add: frame_def)
  from Cons.prems show ?case
    by (auto simp: Let_def ebind_def split: sum.splits prod.splits
        intro: frame_trans [OF p Cons.IH])
qed

lemma hyper_step_frame: "hyper_step E C it lc li l st = Inr st' \<Longrightarrow> frame st st'"
  by (auto simp: hyper_step_def frame_def Let_def ebind_def no_warning_def
      split: sum.splits if_splits)

lemma hyper_loop_frame: "hyper_loop E C it lc li ls st = Inr st' \<Longrightarrow> frame st st'"
proof (induction ls arbitrary: st)
  case Nil
  then show ?case by (simp add: frame_refl)
next
  case (Cons l ls)
  from Cons.prems show ?case
    by (auto simp: ebind_def split: sum.splits
        intro: frame_trans [OF hyper_step_frame Cons.IH])
qed

lemma blocks_stages:
  assumes "blocks E C it st = Inr st'"
  obtains s1 s2 s3 s4 where
    "(if fixbeta (cargs C) then Inr st else beta_loop E C it [0..<dimN C] st) = Inr s1"
    "(if fixalpha (cargs C) then Inr s1 else alpha_loop E C it [0..<dimL C] s1) = Inr s2"
    "(if fixpostmean (cargs C) then Inr s2 else post_mean_loop E C it [0..<dimL C] s2) = Inr s3"
    "(if fixpostcov (cargs C) then Inr s3 else post_cov_loop E C [0..<dimL C] s3) = Inr s4"
    "(if hyper (cargs C) \<and> it mod 5 = 0
      then hyper_loop E C it (prior_cov s4) (prior_inv s4) [0..<dimL C] s4
      else Inr s4) = Inr st'"
  using assms unfolding blocks_def ebind_def
  by (simp split: sum.splits)

lemma blocks_frame:
  assumes "blocks E C it st = Inr st'"
  shows "frame st st'"
proof -
  from assms obtain s1 s2 s3 s4 where
    1: "(if fixbeta (cargs C) then Inr st else beta_loop E C it [0..<dimN C] st) = Inr s1" and
    2: "(if fixalpha (cargs C) then Inr s1 else alpha_loop E C it [0..<dimL C] s1) = Inr s2" and
    3: "(if fixpostmean (cargs C) then Inr s2
         else post_mean_loop E C it [0..<dimL C] s2) = Inr s3" and
    4: "(if fixpostcov (cargs C) then Inr s3 else post_cov_loop E C [0..<dimL C] s3) = Inr s4" and
    5: "(if hyper (cargs C) \<and> it mod 5 = 0
         then hyper_loop E C it (prior_cov s4) (prior_inv s4) [0..<dimL C] s4
         else Inr s4) = Inr st'"
    by (rule blocks_stages)
  have "frame st s1"
    using 1 by (cases "fixbeta (cargs C)") (simp_all add: frame_refl beta_loop_frame)
  moreover have "frame s1 s2"
    using 2 by (cases "fixalpha (cargs C)") (simp_all add: frame_refl alpha_loop_frame)
  moreover have "frame s2 s3"
    using 3 by (cases "fixpostmean (cargs C)") (simp_all add: frame_refl post_mean_loop_frame)
  moreover have "frame s3 s4"
    using 4 by (cases "fixpostcov (cargs C)") (simp_all add: frame_refl post_cov_loop_frame)
  moreover have "frame s4 st'"
    using 5 by (cases "hyper (cargs C) \<and> it mod 5 = 0")
      (simp_all add: frame_refl hyper_loop_frame)
  ultimately show ?thesis
    by (blast intro: frame_trans)
qed

subsection \<open>The end of an iteration and the loop\<close>

lemma changes_lbound: "changes C (st\<lparr>lbound := x\<rparr>) = changes C st"
  by (simp add: changes_def)

lemma finish_props:
  assumes "finish E C it s = Inr st'"
  shows "\<exists>ch. changes C s = Inr ch
           \<and> converged st' = (converged s \<or> fless (change_of ch) (tol C))"
    and "no_warning (out s) \<longrightarrow> no_warning (out st')"
    and "lbound st' = (lbound s)[it := lb_of E C s]"
proof -
  obtain ch where ch: "changes C s = Inr ch"
    using assms by (cases "changes C s") (simp_all add: finish_def Let_def ebind_def changes_lbound)
  have eq: "finish E C it s =
        (let st1 = s\<lparr>lbound := (lbound s)[it := lb_of E C s]\<rparr>;
             st2 = (if fless (change_of ch) (tol C) then st1\<lparr>converged := True\<rparr> else st1);
             st3 = (if verbose C
                      then st2\<lparr>out := out st2 @
                             [case ch of (chg_alpha, chg_beta, chg_post_mean, chg_post_cov) \<Rightarrow>
                                PrintIteration (it + 1) (lbound st2 ! it)
                                  (fsub (lbound st2 ! it) (lbound st2 ! (it - 1)))
                                  chg_alpha chg_beta chg_post_mean chg_post_cov]\<rparr>
                      else st2)
           in Inr (st3\<lparr>good_alpha := alpha st3, good_beta := beta st3,
                       good_post_mean := post_mean st3,
                       good_post_cov := post_cov st3\<rparr>))"
    by (simp add: finish_def Let_def ebind_def changes_lbound ch)
  have nw: "\<not> is_warning (case ch of (a, b, c, d) \<Rightarrow> PrintIteration n x y a b c d)" for n x y
    by (cases ch) auto
  show "\<exists>ch. changes C s = Inr ch
           \<and> converged st' = (converged s \<or> fless (change_of ch) (tol C))"
    using assms ch unfolding eq Let_def by (auto split: if_splits)
  show "no_warning (out s) \<longrightarrow> no_warning (out st')"
    using assms nw unfolding eq Let_def by (auto simp: no_warning_def split: if_splits)
  show "lbound st' = (lbound s)[it := lb_of E C s]"
    using assms unfolding eq Let_def by (auto split: if_splits)
qed

lemma iteration_stages:
  assumes "iteration E C it st = Inr st'"
  obtains sb where "blocks E C it st = Inr sb" "finish E C it sb = Inr st'"
  using assms by (cases "blocks E C it st") (simp_all add: iteration_def ebind_def)


lemma main_loop_stop:
  "converged st \<or> \<not> it < maxiter C \<Longrightarrow> main_loop E C it st = Inr (it, st)"
  by (subst main_loop.simps) auto



lemma lb_of_lbound: "lb_of E C (st\<lparr>lbound := x\<rparr>) = lb_of E C st"
  by (simp add: lb_of_def)

lemma init_state_props:
  "\<not> converged (init_state E C pcov pinv a1 b1 pm)"
  "out (init_state E C pcov pinv a1 b1 pm) = []"
  "length (lbound (init_state E C pcov pinv a1 b1 pm)) = maxiter C"
  "0 < maxiter C \<Longrightarrow>
     lbound (init_state E C pcov pinv a1 b1 pm) ! 0
       = lb_of E C (init_state E C pcov pinv a1 b1 pm)"
  by (simp_all add: init_state_def Let_def lb_of_def)

lemma variational_stages:
  assumes "variational E A ctl = Inr res"
  obtains v C s0 it' st' tv pcov pinv vv where
    "getitem ctl ''max iteration'' = Inr v" "as_int v = Inr (int (maxiter C))"
    "0 < maxiter C" "cargs C = A"
    "\<not> converged s0" "out s0 = []" "length (lbound s0) = maxiter C"
    "lbound s0 ! 0 = lb_of E C s0"
    "main_loop E C 1 s0 = Inr (it', st')"
    "r_lbound res = take it' (lbound st')" "r_converged res = converged st'"
    "r_out res = out st'"
    "getitem ctl ''tol'' = Inr tv" "tol C = as_flt tv"
    "regressor C = makeregressor E (spike A) (p A) (intercept A)"
    "init_prior E (length (spike A)) (prior_var A) (prior_w A) [0..<ncols (prior_mean A)]
       = Inr (pcov, pinv)"
    "s0 = init_state E C pcov pinv (r_a0 res) (r_b0 res)
            (case m0 A of None \<Rightarrow> prior_mean A | Some m \<Rightarrow> m)"
    "getitem ctl ''verbose'' = Inr vv" "verbose C = truthy vv"
proof -
  from assms obtain v where v: "getitem ctl ''max iteration'' = Inr v"
    by (cases "getitem ctl ''max iteration''") (simp_all add: variational_def ebind_def)
  from assms v obtain fp where fp: "getitem ctl ''fixed-point iteration'' = Inr fp"
    by (cases "getitem ctl ''fixed-point iteration''") (simp_all add: variational_def ebind_def)
  from assms v fp obtain tv where tv: "getitem ctl ''tol'' = Inr tv"
    by (cases "getitem ctl ''tol''") (simp_all add: variational_def ebind_def)
  from assms v fp tv obtain vv where vv: "getitem ctl ''verbose'' = Inr vv"
    by (cases "getitem ctl ''verbose''") (simp_all add: variational_def ebind_def)
  define L where "L = ncols (prior_mean A)"
  define pri where "pri = init_prior E (length (spike A)) (prior_var A) (prior_w A) [0..<L]"
  from assms v fp tv vv obtain pcov pinv where pr: "pri = Inr (pcov, pinv)"
    unfolding pri_def L_def
    by (cases "init_prior E (length (spike A)) (prior_var A) (prior_w A)
                 [0..<ncols (prior_mean A)]")
      (auto simp: variational_def ebind_def Let_def)
  define reg where "reg = makeregressor E (spike A) (p A) (intercept A)"
  define pm where "pm = (case m0 A of None \<Rightarrow> prior_mean A | Some m \<Rightarrow> m)"
  define ea where "ea = (case a0 A of
                      None \<Rightarrow>
                        (let r = randn E L (ncols (spike A))
                         in ebind (linalg_norm (concat r)) (\<lambda>nrm.
                              Inr (map (\<lambda>row. vdivs row (fdiv nrm (normofalpha A))) r)))
                    | Some a \<Rightarrow> Inr a)"
  define eb where "eb = (case b0 A of
                      None \<Rightarrow> linalg_lstsq E reg (spike A)
                    | Some b \<Rightarrow> Inr b)"
  have unf: "variational E A ctl =
      ebind ea (\<lambda>a1. ebind eb (\<lambda>b1. ebind (as_int v) (\<lambda>mi.
               if mi < 0 then Inl ValueError
               else
                 let C = \<lparr>cargs = A, regressor = reg, maxiter = nat mi,
                          tol = as_flt tv, verbose = truthy vv\<rparr>
                 in if mi = 0 then Inl IndexError
                    else
                      ebind (main_loop E C 1 (init_state E C pcov pinv a1 b1 pm))
                        (\<lambda>(it, st).
                           Inr \<lparr>r_lbound = take it (lbound st),
                                r_post_mean = post_mean st, r_post_cov = post_cov st,
                                r_alpha = alpha st, r_beta = beta st,
                                r_a0 = a1, r_b0 = b1,
                                r_converged = converged st, r_out = out st\<rparr>))))"
    using pr unfolding pri_def L_def reg_def pm_def ea_def eb_def
    by (simp add: variational_def v fp tv vv ebind_def Let_def)
  from assms obtain a1 where a1: "ea = Inr a1"
    unfolding unf by (cases ea) (simp_all add: ebind_def)
  from assms a1 obtain b1 where b1: "eb = Inr b1"
    unfolding unf by (cases eb) (simp_all add: ebind_def)
  from assms a1 b1 obtain mi where mi: "as_int v = Inr mi"
    unfolding unf by (cases "as_int v") (simp_all add: ebind_def)
  from assms a1 b1 mi have pos: "0 < mi"
    unfolding unf by (cases "mi < 0"; cases "mi = 0") (simp_all add: ebind_def Let_def)
  define C where "C = \<lparr>cargs = A, regressor = reg, maxiter = nat mi,
                          tol = as_flt tv, verbose = truthy vv\<rparr>"
  define s0 where "s0 = init_state E C pcov pinv a1 b1 pm"
  from assms a1 b1 mi pos obtain it' st' where
    ml: "main_loop E C 1 s0 = Inr (it', st')" and
    res: "res = \<lparr>r_lbound = take it' (lbound st'),
                                r_post_mean = post_mean st', r_post_cov = post_cov st',
                                r_alpha = alpha st', r_beta = beta st',
                                r_a0 = a1, r_b0 = b1,
                                r_converged = converged st', r_out = out st'\<rparr>"
    unfolding unf C_def s0_def
    by (cases "main_loop E \<lparr>cargs = A, regressor = reg, maxiter = nat mi,
                          tol = as_flt tv, verbose = truthy vv\<rparr> 1
                 (init_state E \<lparr>cargs = A, regressor = reg, maxiter = nat mi,
                          tol = as_flt tv, verbose = truthy vv\<rparr> pcov pinv a1 b1 pm)")
      (auto simp: ebind_def Let_def)
  have mC: "maxiter C = nat mi" "cargs C = A"
    by (simp_all add: C_def)
  show thesis
  proof (rule that [of v C s0 it' st' tv pcov pinv vv])
    show "getitem ctl ''tol'' = Inr tv" by (rule tv)
    show "getitem ctl ''verbose'' = Inr vv" by (rule vv)
    show "verbose C = truthy vv" by (simp add: C_def)
    show "tol C = as_flt tv"
      "regressor C = makeregressor E (spike A) (p A) (intercept A)"
      by (simp_all add: C_def reg_def)
    show "init_prior E (length (spike A)) (prior_var A) (prior_w A) [0..<ncols (prior_mean A)]
       = Inr (pcov, pinv)"
      using pr by (simp add: pri_def L_def)
    show "s0 = init_state E C pcov pinv (r_a0 res) (r_b0 res)
            (case m0 A of None \<Rightarrow> prior_mean A | Some m \<Rightarrow> m)"
      by (simp add: s0_def res pm_def)
    show "getitem ctl ''max iteration'' = Inr v" by (rule v)
    show "as_int v = Inr (int (maxiter C))" using mi pos mC by simp
    show "0 < maxiter C" using pos mC by simp
    show "cargs C = A" by (rule mC)
    show "\<not> converged s0" "out s0 = []" "length (lbound s0) = maxiter C"
      unfolding s0_def by (rule init_state_props)+
    show "lbound s0 ! 0 = lb_of E C s0"
      unfolding s0_def using pos mC by (intro init_state_props) simp
    show "main_loop E C 1 s0 = Inr (it', st')" by (rule ml)
    show "r_lbound res = take it' (lbound st')" "r_converged res = converged st'"
      "r_out res = out st'"
      by (simp_all add: res)
  qed
qed

lemma run_cov:
  "variational env_small args_cov (control_of 2 (Fin (1 / 10 ^ 4))) = Inr res_cov"
  by (simp add: args_cov_def res_cov_def args_base_def control_of_def run_defs step_defs
      small_defs vec_defs Let_def upt_Suc0 main_loop.simps numeral_2_eq_2)





subsection \<open>The trace of the lower bound\<close>

lemma fless_fsub_zero: "fless (fsub a b) (Fin 0) = fless a b"
  by (cases a; cases b) (simp_all add: fsub_def)

lemma fless_irrefl: "\<not> fless a a"
  by (cases a) simp_all

lemma lb_of_cong:
  assumes "beta st' = beta st" "alpha st' = alpha st" "prior_inv st' = prior_inv st"
    "post_mean st' = post_mean st" "post_cov st' = post_cov st" "rate st' = rate st"
  shows "lb_of E C st' = lb_of E C st"
  using assms by (simp add: lb_of_def lowerbound_def)

lemma lb_ok_cong: "lb_of E C st' = lb_of E C st \<Longrightarrow> lb_ok E C B st \<Longrightarrow> lb_ok E C B st'"
  by (simp add: lb_ok_def)

lemma lb_ok_accept:
  "\<not> isnan (lb_of E C st) \<Longrightarrow> \<not> fless (lb_of E C st) B \<Longrightarrow> lb_ok E C B st"
  by (simp add: lb_ok_def)

lemma beta_step_lb:
  assumes "lb_ok E C B st" "lbound st ! (it - 1) = B"
  shows "lb_ok E C B (beta_step E C it n grad H sol st)"
proof (cases "beta_accepted E C it n sol st")
  case False
  have "lb_of E C (beta_step E C it n grad H sol st) = lb_of E C st"
  proof (rule lb_of_cong)
    show "beta (beta_step E C it n grad H sol st) = beta st"
      "rate (beta_step E C it n grad H sol st) = rate st"
      using beta_step_reject [OF False] by simp_all
  qed (simp_all add: beta_step_def beta_try_def Let_def)
  then show ?thesis using assms(1) by (rule lb_ok_cong)
next
  case True
  define st1 where "st1 = beta_try C n (vscale (stepsize_beta st ! n) sol) st"
  have acc: "\<not> isnan (lb_of E C st1)" "\<not> fless (lb_of E C st1) B"
    using True assms(2) by (simp_all add: beta_accepted_def st1_def Let_def)
  have "lb_of E C (beta_step E C it n grad H sol st) = lb_of E C st1"
    using acc assms(2) unfolding beta_step_def Let_def st1_def [symmetric]
    by (auto intro!: lb_of_cong)
  with acc show ?thesis by (simp add: lb_ok_def)
qed

lemma lb_ok_out: "lb_ok E C B st \<Longrightarrow> lb_ok E C B (st\<lparr>out := x\<rparr>)"
  by (rule lb_ok_cong [rotated]) (simp_all add: lb_of_def)

lemma beta_loop_lb:
  "beta_loop E C it ns st = Inr st' \<Longrightarrow> lb_ok E C B st \<Longrightarrow> lbound st ! (it - 1) = B
   \<Longrightarrow> lb_ok E C B st'"
proof (induction ns arbitrary: st)
  case Nil
  then show ?case by simp
next
  case (Cons n ns)
  show ?case
  proof (cases "linalg_norm_inf (grad_b C st n)")
    case (Inl e)
    with Cons.prems(1) show ?thesis by (simp add: Let_def)
  next
    case g: (Inr g)
    show ?thesis
    proof (cases "fless g eps")
      case True
      with g Cons.prems show ?thesis by (simp add: Let_def)
    next
      case nb: False
      show ?thesis
      proof (cases "linalg_solve E (neg_hess_b C st n) (grad_b C st n)")
        case (Inl e)
        with g nb Cons.prems(1)
        have "beta_loop E C it ns (st\<lparr>out := out st @ [PrintError ''beta'']\<rparr>) = Inr st'"
          by (simp add: Let_def split: if_splits)
        then show ?thesis
          by (rule Cons.IH) (use Cons.prems(2,3) in \<open>simp_all add: lb_ok_out\<close>)
      next
        case (Inr sol)
        let ?s = "beta_step E C it n (grad_b C st n) (neg_hess_b C st n) sol st"
        from Inr g nb Cons.prems(1) have "beta_loop E C it ns ?s = Inr st'"
          by (simp add: Let_def)
        moreover have "lb_ok E C B ?s"
          using Cons.prems(2,3) by (rule beta_step_lb)
        moreover have "lbound ?s ! (it - 1) = B"
          using beta_step_frame [of st E C it n] Cons.prems(3) by (simp add: frame_def)
        ultimately show ?thesis by (rule Cons.IH)
      qed
    qed
  qed
qed

lemma alpha_step_lb:
  assumes "alpha_step E C it l grad H sol st = Inr st'" "lb_ok E C B st"
    "lbound st ! (it - 1) = B"
  shows "lb_ok E C B st'"
proof (cases "alpha_accepted E C it l sol st")
  case False
  have "lb_of E C st' = lb_of E C st"
  proof (rule lb_of_cong)
    show "alpha st' = alpha st" "rate st' = rate st"
      using alpha_step_reject [OF assms(1) False] by simp_all
  qed (use assms(1) in \<open>auto simp: alpha_step_def alpha_try_def Let_def ebind_def
        split: sum.splits if_splits\<close>)
  then show ?thesis using assms(2) by (rule lb_ok_cong)
next
  case True
  then obtain st1 where t: "alpha_try C l (vscale (stepsize_alpha st ! l) sol) st = Inr st1"
    and acc: "\<not> isnan (lb_of E C st1)"
      "\<not> fless (fsub (lb_of E C st1) (lbound st ! (it - 1))) (Fin 0)"
    by (cases "alpha_try C l (vscale (stepsize_alpha st ! l) sol) st")
      (simp_all add: alpha_accepted_def)
  have "lb_of E C st' = lb_of E C st1"
    using assms(1) t acc
    by (auto simp: alpha_step_def Let_def ebind_def split: if_splits intro!: lb_of_cong)
  with acc assms(3) show ?thesis by (simp add: lb_ok_def fless_fsub_zero)
qed

lemma alpha_loop_lb:
  "alpha_loop E C it ls st = Inr st' \<Longrightarrow> lb_ok E C B st \<Longrightarrow> lbound st ! (it - 1) = B
   \<Longrightarrow> lb_ok E C B st'"
proof (induction ls arbitrary: st)
  case Nil
  then show ?case by simp
next
  case (Cons l ls)
  show ?case
  proof (cases "linalg_norm_inf (grad_a C st l)")
    case (Inl e)
    with Cons.prems(1) show ?thesis by (simp add: Let_def)
  next
    case g: (Inr g)
    show ?thesis
    proof (cases "fless g eps \<or> length (stepsize_alpha st) \<le> l")
      case True
      with g Cons.prems show ?thesis by (auto simp: Let_def split: if_splits)
    next
      case nb: False
      show ?thesis
      proof (cases "linalg_solve E (neg_hess_a C st l) (grad_a C st l)")
        case (Inl e)
        with g nb Cons.prems(1)
        have "alpha_loop E C it ls (st\<lparr>out := out st @ [PrintError ''alpha'']\<rparr>) = Inr st'"
          by (simp add: Let_def split: if_splits)
        then show ?thesis
          by (rule Cons.IH) (use Cons.prems(2,3) in \<open>simp_all add: lb_ok_out\<close>)
      next
        case (Inr sol)
        with g nb Cons.prems(1) obtain s where
          s: "alpha_step E C it l (grad_a C st l) (neg_hess_a C st l) sol st = Inr s"
          and l: "alpha_loop E C it ls s = Inr st'"
          by (cases "alpha_step E C it l (grad_a C st l) (neg_hess_a C st l) sol st")
            (simp_all add: Let_def ebind_def)
        note l
        moreover have "lb_ok E C B s"
          using s Cons.prems(2,3) by (rule alpha_step_lb)
        moreover have "lbound s ! (it - 1) = B"
          using alpha_step_frame [OF s] Cons.prems(3) by (simp add: frame_def)
        ultimately show ?thesis by (rule Cons.IH)
      qed
    qed
  qed
qed

lemma post_mean_step_lb:
  assumes "post_mean_step E C it l grad hinv st = Inr st'" "lb_ok E C B st"
    "lbound st ! (it - 1) = B"
  shows "lb_ok E C B st'"
proof (cases "post_mean_accepted E C it l grad hinv st")
  case False
  have "lb_of E C st' = lb_of E C st"
  proof (rule lb_of_cong)
    show "post_mean st' = post_mean st" "rate st' = rate st"
      using post_mean_step_reject [OF assms(1) False] by simp_all
  qed (use assms(1) in \<open>auto simp: post_mean_step_def post_mean_try_def Let_def ebind_def
        split: sum.splits if_splits\<close>)
  then show ?thesis using assms(2) by (rule lb_ok_cong)
next
  case True
  define st1 where
    "st1 = post_mean_try C l (vscale (stepsize_post_mean st ! l) (matvec hinv grad)) st"
  have acc: "\<not> isnan (lb_of E C st1)" "\<not> fless (lb_of E C st1) B"
    using True assms(3) by (simp_all add: post_mean_accepted_def st1_def Let_def)
  have "lb_of E C st' = lb_of E C st1"
    using assms(1,3) acc unfolding post_mean_step_def Let_def st1_def [symmetric]
    by (auto simp: ebind_def split: sum.splits if_splits intro!: lb_of_cong)
  with acc show ?thesis by (simp add: lb_ok_def)
qed

lemma post_mean_loop_lb:
  "post_mean_loop E C it ls st = Inr st' \<Longrightarrow> lb_ok E C B st \<Longrightarrow> lbound st ! (it - 1) = B
   \<Longrightarrow> lb_ok E C B st'"
proof (induction ls arbitrary: st)
  case Nil
  then show ?case by simp
next
  case (Cons l ls)
  from Cons.prems(1) obtain w1 bmat1 hinv where
    wb: "woodbury E C st l = Inr (w1, bmat1, hinv)"
    by (cases "woodbury E C st l") (auto simp: Let_def ebind_def)
  let ?s0 = "st\<lparr>w := w1, bmat := Matrix bmat1\<rparr>"
  have ok0: "lb_ok E C B ?s0"
    using Cons.prems(2) by (rule lb_ok_cong [rotated]) (simp add: lb_of_def)
  have lb0: "lbound ?s0 ! (it - 1) = B"
    using Cons.prems(3) by simp
  show ?case
  proof (cases "linalg_norm_inf (grad_m C st l)")
    case (Inl e)
    with wb Cons.prems(1) show ?thesis by (simp add: Let_def ebind_def)
  next
    case g: (Inr g)
    show ?thesis
    proof (cases "fless g eps")
      case True
      with g wb Cons.prems(1) ok0 show ?thesis by (simp add: Let_def ebind_def)
    next
      case nb: False
      with g wb Cons.prems(1) obtain s where
        s: "post_mean_step E C it l (grad_m C st l) hinv ?s0 = Inr s"
        and l: "post_mean_loop E C it ls s = Inr st'"
        by (cases "post_mean_step E C it l (grad_m C st l) hinv ?s0")
          (simp_all add: Let_def ebind_def)
      note l
      moreover have "lb_ok E C B s"
        using s ok0 lb0 by (rule post_mean_step_lb)
      moreover have "lbound s ! (it - 1) = B"
        using post_mean_step_frame [OF s] lb0 by (simp add: frame_def)
      ultimately show ?thesis by (rule Cons.IH)
    qed
  qed
qed

lemma hyper_step_lb:
  assumes "hyper_step E C it lc li l st = Inr st'" "lb_ok E C B st"
    "lbound st ! (it - 1) = B" "li ! l = prior_inv st ! l"
  shows "lb_ok E C B st'"
proof -
  have c: "lb_ok E C B s"
    if "beta s = beta st" "alpha s = alpha st" "prior_inv s = prior_inv st"
      "post_mean s = post_mean st" "post_cov s = post_cov st" "rate s = rate st" for s
    using lb_of_cong [OF that] assms(2) by (rule lb_ok_cong)
  have a: "lb_ok E C B s"
    if "\<not> isnan (lb_of E C s)" "\<not> fless (lb_of E C s) (lbound st ! (it - Suc 0))" for s
    using that assms(3) by (simp add: lb_ok_def)
  from assms(1) show ?thesis
    unfolding hyper_step_def Let_def ebind_def
    by (auto split: if_splits sum.splits simp: assms(4) intro: c a)
qed

lemma hyper_step_prior_inv:
  assumes "hyper_step E C it lc li l st = Inr st'" "k \<noteq> l"
  shows "prior_inv st' ! k = prior_inv st ! k"
  using assms
  by (auto simp: hyper_step_def Let_def ebind_def split: if_splits sum.splits)

lemma hyper_loop_lb:
  "hyper_loop E C it lc li ls st = Inr st' \<Longrightarrow> lb_ok E C B st \<Longrightarrow> lbound st ! (it - 1) = B
   \<Longrightarrow> distinct ls \<Longrightarrow> \<forall>l\<in>set ls. li ! l = prior_inv st ! l \<Longrightarrow> lb_ok E C B st'"
proof (induction ls arbitrary: st)
  case Nil
  then show ?case by simp
next
  case (Cons l ls)
  from Cons.prems(1) obtain s where
    s: "hyper_step E C it lc li l st = Inr s" and
    l: "hyper_loop E C it lc li ls s = Inr st'"
    by (cases "hyper_step E C it lc li l st") (simp_all add: ebind_def)
  note l
  moreover have "lb_ok E C B s"
    using s Cons.prems(2,3) by (rule hyper_step_lb) (use Cons.prems(5) in simp)
  moreover have "lbound s ! (it - 1) = B"
    using hyper_step_frame [OF s] Cons.prems(3) by (simp add: frame_def)
  moreover have "distinct ls"
    using Cons.prems(4) by simp
  moreover have "\<forall>k\<in>set ls. li ! k = prior_inv s ! k"
  proof
    fix k assume k: "k \<in> set ls"
    then have "k \<noteq> l" using Cons.prems(4) by auto
    then have "prior_inv s ! k = prior_inv st ! k"
      using s by (intro hyper_step_prior_inv)
    then show "li ! k = prior_inv s ! k"
      using Cons.prems(5) k by simp
  qed
  ultimately show ?case by (rule Cons.IH)
qed

lemma blocks_lb:
  assumes "blocks E C it st = Inr st'" "fixpostcov (cargs C)"
    "lb_ok E C B st" "lbound st ! (it - 1) = B"
  shows "lb_ok E C B st'"
proof -
  from assms(1) obtain s1 s2 s3 s4 where
    1: "(if fixbeta (cargs C) then Inr st else beta_loop E C it [0..<dimN C] st) = Inr s1" and
    2: "(if fixalpha (cargs C) then Inr s1 else alpha_loop E C it [0..<dimL C] s1) = Inr s2" and
    3: "(if fixpostmean (cargs C) then Inr s2
         else post_mean_loop E C it [0..<dimL C] s2) = Inr s3" and
    4: "(if fixpostcov (cargs C) then Inr s3 else post_cov_loop E C [0..<dimL C] s3) = Inr s4" and
    5: "(if hyper (cargs C) \<and> it mod 5 = 0
         then hyper_loop E C it (prior_cov s4) (prior_inv s4) [0..<dimL C] s4
         else Inr s4) = Inr st'"
    by (rule blocks_stages)
  have f1: "frame st s1"
    using 1 by (cases "fixbeta (cargs C)") (simp_all add: frame_refl beta_loop_frame)
  have f2: "frame s1 s2"
    using 2 by (cases "fixalpha (cargs C)") (simp_all add: frame_refl alpha_loop_frame)
  have f3: "frame s2 s3"
    using 3 by (cases "fixpostmean (cargs C)") (simp_all add: frame_refl post_mean_loop_frame)
  have b1: "lbound s1 ! (it - 1) = B" using f1 assms(4) by (simp add: frame_def)
  have b2: "lbound s2 ! (it - 1) = B" using f2 b1 by (simp add: frame_def)
  have b3: "lbound s3 ! (it - 1) = B" using f3 b2 by (simp add: frame_def)
  have o1: "lb_ok E C B s1"
    using 1 assms(3,4) by (cases "fixbeta (cargs C)") (auto intro: beta_loop_lb)
  have o2: "lb_ok E C B s2"
    using 2 o1 b1 by (cases "fixalpha (cargs C)") (auto intro: alpha_loop_lb)
  have o3: "lb_ok E C B s3"
    using 3 o2 b2 by (cases "fixpostmean (cargs C)") (auto intro: post_mean_loop_lb)
  have e4: "s4 = s3"
    using 4 assms(2) by simp
  show ?thesis
  proof (cases "hyper (cargs C) \<and> it mod 5 = 0")
    case False
    with 5 e4 o3 show ?thesis by simp
  next
    case True
    with 5 e4 have "hyper_loop E C it (prior_cov s3) (prior_inv s3) [0..<dimL C] s3 = Inr st'"
      by simp
    then show ?thesis
      using o3 b3 by (rule hyper_loop_lb) simp_all
  qed
qed

lemma finish_lb_of:
  assumes "finish E C it s = Inr st'"
  shows "lb_of E C st' = lb_of E C s"
  using assms
  by (auto simp: finish_def Let_def ebind_def split: sum.splits if_splits intro!: lb_of_cong)

lemma nondecreasing_snoc:
  "xs \<noteq> [] \<Longrightarrow>
   nondecreasing (xs @ [y])
     = (nondecreasing xs \<and> \<not> fless y (last xs) \<and> (isnan y \<longrightarrow> isnan (last xs)))"
  by (induction xs rule: nondecreasing.induct) auto

lemma take_Suc_update: "i < length xs \<Longrightarrow> take (Suc i) (xs[i := v]) = take i xs @ [v]"
  by (simp add: take_Suc_conv_app_nth)

lemma last_take:
  assumes "0 < n" "n \<le> length xs"
  shows "last (take n xs) = xs ! (n - 1)"
proof -
  have "take n xs \<noteq> []"
    using assms by auto
  then have "last (take n xs) = take n xs ! (length (take n xs) - 1)"
    by (rule last_conv_nth)
  also have "\<dots> = xs ! (n - 1)"
    using assms by simp
  finally show ?thesis .
qed

lemma lb_ok_step:
  assumes "lb_ok E C B s"
  shows "\<not> fless (lb_of E C s) B \<and> (isnan (lb_of E C s) \<longrightarrow> isnan B)"
  using assms by (auto simp: lb_ok_def fless_irrefl)

lemma main_loop_mono:
  "main_loop E C it st = Inr (it', st') \<Longrightarrow> fixpostcov (cargs C) \<Longrightarrow> 0 < it
   \<Longrightarrow> it \<le> maxiter C \<Longrightarrow> length (lbound st) = maxiter C
   \<Longrightarrow> lbound st ! (it - 1) = lb_of E C st \<Longrightarrow> nondecreasing (take it (lbound st))
   \<Longrightarrow> nondecreasing (take it' (lbound st'))"
proof (induction E C it st rule: main_loop.induct)
  case (1 E C it st)
  show ?case
  proof (cases "\<not> converged st \<and> it < maxiter C")
    case False
    then have "main_loop E C it st = Inr (it, st)"
      by (intro main_loop_stop) auto
    with "1.prems" show ?thesis by simp
  next
    case True
    with "1.prems"(1) obtain st1 where
      it: "iteration E C it st = Inr st1" and
      ml: "main_loop E C (it + 1) st1 = Inr (it', st')"
      by (cases "iteration E C it st") (simp_all add: main_loop.simps [of E C it st])
    from it obtain sb where sb: "blocks E C it st = Inr sb" "finish E C it sb = Inr st1"
      by (rule iteration_stages)
    define B where "B = lbound st ! (it - 1)"
    have "lb_ok E C B st"
      using "1.prems"(6) by (simp add: lb_ok_def B_def)
    with sb(1) "1.prems"(2) have ok: "lb_ok E C B sb"
      by (rule blocks_lb) (simp add: B_def)
    have fr: "lbound sb = lbound st"
      using blocks_frame [OF sb(1)] by (simp add: frame_def)
    have lb1: "lbound st1 = (lbound st)[it := lb_of E C sb]"
      using finish_props(3) [OF sb(2)] fr by simp
    have lt: "it < length (lbound st)"
      using True "1.prems"(5) by simp
    have ne: "take it (lbound st) \<noteq> []"
      using lt "1.prems"(3) by (cases "lbound st") auto
    have la: "last (take it (lbound st)) = B"
      using lt "1.prems"(3) unfolding B_def
      by (intro last_take) simp_all
    have "take (it + 1) (lbound st1) = take it (lbound st) @ [lb_of E C sb]"
      using lt by (simp add: lb1 take_Suc_update)
    then have "nondecreasing (take (it + 1) (lbound st1))"
      using lb_ok_step [OF ok] "1.prems"(7) nondecreasing_snoc [OF ne, of "lb_of E C sb"]
      by (simp add: la)
    moreover have "lbound st1 ! (it + 1 - 1) = lb_of E C st1"
      using lt by (simp add: lb1 finish_lb_of [OF sb(2)])
    moreover have "length (lbound st1) = maxiter C"
      using "1.prems"(5) by (simp add: lb1)
    ultimately show ?thesis
      using "1.IH" [OF True it ml] "1.prems"(2) True by simp
  qed
qed

lemma run_pm:
  "variational env_small args_pm (control_of 2 (Fin (1 / 10 ^ 4))) = Inr res_pm"
  by (simp add: args_pm_def res_pm_def args_base_def control_of_def run_defs step_defs
      block_defs small_defs vec_defs Let_def upt_Suc0 main_loop.simps numeral_2_eq_2
      finfo_max_def finfo_eps_def)

lemma ln37: "3 < ln (37 :: real)"
proof -
  have "exp (1 :: real) ^ 3 \<le> 3 ^ 3"
    using exp_le by (intro power_mono) simp_all
  also have "\<dots> < (37 :: real)"
    by simp
  finally have "exp (3 :: real) < 37"
    using exp_of_nat_mult [of 3 "1 :: real"] by simp
  then have "ln (exp (3 :: real)) < ln 37"
    by (subst ln_less_cancel_iff) simp_all
  then show ?thesis
    by simp
qed

text \<open>
  Every block but the posterior covariance keeps the trace in order. When that block is
  frozen, the trace that a call of \<open>variational\<close> returns is non-decreasing from end to
  end: no entry compares below its predecessor, and an entry is NaN only if its
  predecessor is. The steps of the coefficients, the loadings, the posterior mean and the
  hyperparameters are all tested against the bound of the previous iteration and undone
  when they lower it.
\<close>

lemma lbound_monotone_fixpostcov:
  assumes "variational E A ctl = Inr res" and "fixpostcov A"
  shows "nondecreasing (r_lbound res)"
proof -
  from assms(1) obtain v C s0 it' st' where
    c: "0 < maxiter C" "cargs C = A" and
    s0: "length (lbound s0) = maxiter C" "lbound s0 ! 0 = lb_of E C s0" and
    ml: "main_loop E C 1 s0 = Inr (it', st')" and
    r: "r_lbound res = take it' (lbound st')"
    by (rule variational_stages)
  have "nondecreasing (take 1 (lbound s0))"
    by (cases "lbound s0") simp_all
  then have "nondecreasing (take it' (lbound st'))"
    using main_loop_mono [OF ml] c s0 assms(2) by simp
  with r show ?thesis by simp
qed

lemma lbound_monotone_pm:
  "variational env_small args_pm (control_of 2 (Fin (1 / 10 ^ 4))) = Inr res_pm
   \<and> fixpostcov args_pm
   \<and> r_lbound res_pm = [Fin (- 2), Fin (- (3 / 2))]
   \<and> nondecreasing (r_lbound res_pm)"
proof -
  have a: "fixpostcov args_pm"
    by (simp add: args_pm_def args_base_def)
  have b: "r_lbound res_pm = [Fin (- 2), Fin (- (3 / 2))]"
    by (simp add: res_pm_def)
  from lbound_monotone_fixpostcov [OF run_pm a] run_pm a b
  show ?thesis by blast
qed

text \<open>
  C1. The trace is to be non-decreasing from end to end, the iterations in which the
  posterior covariance is updated included. That update is the one block whose result
  is stored without a test of the bound (the buffer \<open>last_V\<close> set aside for its recovery
  is never used). In the run below, with one bin, one channel and one latent, loading 6
  and coefficient \<open>-18\<close>, only that block is active: the covariance goes from 1 to
  \<open>1/37\<close>, and the bound recorded by the first iteration, \<open>ln (1/37) / 2 - 1/74 -
  exp (- 648/37)\<close>, is lower than the initial bound \<open>-3/2\<close> by more than \<open>1/100\<close>.
\<close>

theorem postcov_update_lowers_bound:
  "variational env_small args_cov (control_of 2 (Fin (1 / 10 ^ 4))) = Inr res_cov
   \<and> r_post_cov res_cov = [[[Fin (1 / 37)]]]
   \<and> r_lbound res_cov ! 0 = Fin (- (3 / 2))
   \<and> r_lbound res_cov ! 1 = Fin (ln (1 / 37) / 2 - 1 / 74 - exp (- (648 / 37)))
   \<and> fless (fadd (r_lbound res_cov ! 1) (Fin (1 / 100))) (r_lbound res_cov ! 0)"
proof -
  have "ln (1 / 37 :: real) = - ln 37"
    by (simp add: ln_div)
  then have "ln (1 / 37 :: real) / 2 - 1 / 74 - exp (- (648 / 37)) + 1 / 100 < - (3 / 2)"
    using ln37 exp_gt_zero [of "- (648 / 37) :: real"] by linarith
  then show ?thesis
    using run_cov by (simp add: res_cov_def)
qed

subsection \<open>A block at a stationary point\<close>

lemma run_brk:
  "variational env_small args_brk (control_of 2 (Fin (1 / 10 ^ 4))) = Inr res_brk"
  by (simp add: args_brk_def res_brk_def args_base_def control_of_def run_defs step_defs
      small_defs vec_defs Let_def upt_Suc0 main_loop.simps numeral_2_eq_2 finfo_max_def
      finfo_eps_def)

lemma grad_brk:
  "rate st_brk = [[Fin 1, Fin 1]]"
  "grad_b ctx_brk st_brk 0 = [Fin 0]"
  "grad_b ctx_brk st_brk 1 = [Fin 1]"
  by (simp_all add: ctx_brk_def st_brk_def ctx_small_def args_brk_def args_base_def
      init_state_def grad_b_def step_defs vec_defs Let_def upt_Suc0 numeral_2_eq_2
      finfo_max_def finfo_eps_def)

lemma loop_brk: "beta_loop env_small ctx_brk 1 [0, 1] st_brk = Inr st_brk"
  by (simp add: grad_brk linalg_norm_inf_def eps_def finfo_eps_def Let_def)

text \<open>
  C3. A block whose gradient is below the threshold is to be skipped alone, the
  remaining blocks of the same kind still being updated. The loops leave at the first
  such block (\<open>break\<close>), where the failure of the solver goes on to the next block
  (\<open>continue\<close>). In the run below the gradient of channel 0 is 0 and that of channel 1
  is 1, which is not below the threshold: the loop over the channels returns the state
  as it was, the coefficient of channel 1 is still 0 when \<open>variational\<close> returns, and
  the run reports convergence after its first iteration.
\<close>

theorem small_gradient_leaves_loop:
  "variational env_small args_brk (control_of 2 (Fin (1 / 10 ^ 4))) = Inr res_brk
   \<and> r_beta res_brk = [[Fin 0, Fin 0]] \<and> r_converged res_brk
   \<and> grad_b ctx_brk st_brk 0 = [Fin 0] \<and> fless (Fin 0) eps
   \<and> grad_b ctx_brk st_brk 1 = [Fin 1] \<and> fless eps (Fin 1)
   \<and> beta_loop env_small ctx_brk 1 [0, 1] st_brk = Inr st_brk"
proof -
  have r: "r_beta res_brk = [[Fin 0, Fin 0]]" "r_converged res_brk"
    by (simp_all add: res_brk_def)
  have e: "fless (Fin 0) eps" "fless eps (Fin 1)"
    by (simp_all add: eps_def finfo_eps_def)
  from run_brk r grad_brk(2,3) e loop_brk show ?thesis
    by (intro conjI)
qed

subsection \<open>A rejected hyperparameter step\<close>

lemma replicate6: "replicate 6 x = [x, x, x, x, x, x]"
  by (simp add: eval_nat_numeral)

lemma mod5: "Suc 0 mod 5 = 1" "Suc (Suc 0) mod 5 = 2" "Suc (Suc (Suc 0)) mod 5 = 3"
  "Suc (Suc (Suc (Suc 0))) mod 5 = 4" "Suc (Suc (Suc (Suc (Suc 0)))) mod 5 = 0"
  by simp_all

lemma loop_hyp: "main_loop env_small ctx_hyp 1 st_hyp = Inr (6, st_hyp_end)"
  by (simp add: ctx_hyp_def st_hyp_def st_hyp_end_def lb_hyp_def ctx_small_def args_hyp_def
      args_base_def run_defs step_defs block_defs small_defs vec_defs Let_def upt_Suc0
      numeral_2_eq_2 finfo_max_def finfo_eps_def replicate6 mod5 main_loop.simps)

lemma run_hyp: "variational env_small args_hyp (control_of 6 (Fin 0)) = Inr res_hyp"
  by (simp add: res_hyp_def st_hyp_end_def lb_hyp_def args_hyp_def
      args_base_def control_of_def run_defs step_defs block_defs small_defs vec_defs Let_def
      upt_Suc0 numeral_2_eq_2 finfo_max_def finfo_eps_def replicate6 mod5 main_loop.simps)

lemma hyper_step_reject:
  assumes "hyper_step E C it lc li l st = Inr st'"
    and "PrintHyperFailed \<in> set (out st')" "PrintHyperFailed \<notin> set (out st)"
  shows "variance st' = (variance st)[l := new_var C st l]
    \<and> w st' = (w st)[l := fadd (w st ! l) (fmul (stepsize_w st ! l) (grad_w C st l))]
    \<and> prior_cov st' = (prior_cov st)[l := lc ! l]
    \<and> prior_inv st' = (prior_inv st)[l := li ! l]
    \<and> stepsize_w st' = (stepsize_w st)[l := fmul (stepsize_w st ! l) (Fin (1 / 2))]"
  using assms
  by (auto simp: hyper_step_def Let_def ebind_def split: if_splits sum.splits)

text \<open>
  C8. When the bound recomputed after a hyperparameter step is NaN or lower, the prior
  covariance and its inverse are to come back together with the hyperparameters that
  produced them. The saved covariance and inverse do come back and the step size is
  halved, but \<open>variance[l]\<close> and \<open>w[l]\<close> keep the rejected values. In the run below
  the step of the fifth iteration proposes the variance \<open>1/2\<close> and \<open>w = 1/2\<close>, the bound
  falls by \<open>1/4\<close> and the step is rejected: the loop ends with the prior covariance and
  inverse \<open>1\<close> of the hyperparameters \<open>(1, 1)\<close>, and with the stored hyperparameters
  \<open>(1/2, 1/2)\<close>, whose covariance is \<open>1/2\<close>.
\<close>

theorem rejected_hyper_step_keeps_new_hyperparameters:
  "variational env_small args_hyp (control_of 6 (Fin 0)) = Inr res_hyp
   \<and> r_out res_hyp = [PrintHyper 0 (Fin (1 / 2)) (Fin (1 / 2)), PrintHyperFailed]
   \<and> main_loop env_small ctx_hyp 1 st_hyp = Inr (6, st_hyp_end)
   \<and> variance st_hyp = [Fin 1] \<and> w st_hyp = [Fin 1]
   \<and> prior_cov st_hyp = [[[Fin 1]]] \<and> prior_inv st_hyp = [[[Fin 1]]]
   \<and> stepsize_w st_hyp = [Fin 1]
   \<and> variance st_hyp_end = [Fin (1 / 2)] \<and> w st_hyp_end = [Fin (1 / 2)]
   \<and> prior_cov st_hyp_end = [[[Fin 1]]] \<and> prior_inv st_hyp_end = [[[Fin 1]]]
   \<and> stepsize_w st_hyp_end = [Fin (1 / 2)]
   \<and> sqexpcov env_small 1 (Fin (1 / 2)) (Fin (1 / 2)) = [[Fin (1 / 2)]]
   \<and> sqexpcov env_small 1 (Fin 1) (Fin 1) = [[Fin 1]]"
proof -
  have a: "r_out res_hyp = [PrintHyper 0 (Fin (1 / 2)) (Fin (1 / 2)), PrintHyperFailed]"
    by (simp add: res_hyp_def st_hyp_end_def)
  have b: "variance st_hyp = [Fin 1]" "w st_hyp = [Fin 1]"
    "prior_cov st_hyp = [[[Fin 1]]]" "prior_inv st_hyp = [[[Fin 1]]]"
    "stepsize_w st_hyp = [Fin 1]"
    by (simp_all add: st_hyp_def init_state_def ctx_hyp_def ctx_small_def args_hyp_def
        args_base_def Let_def dimL_def ncols_def)
  have c: "variance st_hyp_end = [Fin (1 / 2)]" "w st_hyp_end = [Fin (1 / 2)]"
    "prior_cov st_hyp_end = [[[Fin 1]]]" "prior_inv st_hyp_end = [[[Fin 1]]]"
    "stepsize_w st_hyp_end = [Fin (1 / 2)]"
    by (simp_all add: st_hyp_end_def)
  have d: "sqexpcov env_small 1 (Fin (1 / 2)) (Fin (1 / 2)) = [[Fin (1 / 2)]]"
    "sqexpcov env_small 1 (Fin 1) (Fin 1) = [[Fin 1]]"
    by (simp_all add: env_small_def sqexpcov_spec_def)
  from run_hyp a loop_hyp b c d show ?thesis
    by (intro conjI)
qed

subsection \<open>A NaN in the linear predictor reaches the lower bound\<close>

lemma fadd_nan_right: "fadd a NaN = NaN"
  by (cases a) simp_all

lemma fmul_nan_right: "fmul a NaN = NaN"
  by (cases a) simp_all

lemma fsub_nan: "fsub NaN b = NaN" "fsub a NaN = NaN"
  by (simp_all add: fsub_def fadd_nan_right)

lemma fsum_Cons: "fsum (x # xs) = fadd x (fsum xs)"
  by (simp add: fsum_def)

lemma fsum_nan: "NaN \<in> set xs \<Longrightarrow> fsum xs = NaN"
  by (induction xs) (auto simp: fsum_Cons fadd_nan_right)

lemma foldl_fadd_nan: "foldl (\<lambda>lb l. fadd lb (f l)) NaN ls = NaN"
  by (induction ls) simp_all

lemma dot_nan:
  assumes "i < length u" "i < length v" "fmul (u ! i) (v ! i) = NaN"
  shows "dot u v = NaN"
proof -
  have "map2 fmul u v ! i = NaN"
    using assms by simp
  moreover have "i < length (map2 fmul u v)"
    using assms by simp
  ultimately have "NaN \<in> set (map2 fmul u v)"
    by (metis nth_mem)
  then show ?thesis
    unfolding dot_def by (rule fsum_nan)
qed

lemma lowerbound_nan:
  assumes "t < length S" "t < length R" "t < length M" "t < length rt"
    "0 < length (S ! t)" "0 < length (rt ! t)" "0 < ncols B" "0 < ncols A"
    "dot (M ! t) (col A 0) = NaN"
  shows "lowerbound E S B A PM PC PI M V R rt = NaN"
proof -
  define X where "X = msub (mmul_elem S (madd (matmul R B) (matmul M A))) rt"
  have lt: "t < length X"
    using assms(1-4) by (simp add: X_def msub_def mmul_elem_def madd_def matmul_def)
  have row: "X ! t = vsub (vmul (S ! t)
                 (vadd (map (\<lambda>j. dot (R ! t) (col B j)) [0..<ncols B])
                       (map (\<lambda>j. dot (M ! t) (col A j)) [0..<ncols A]))) (rt ! t)"
    using assms(1-4) by (simp add: X_def msub_def mmul_elem_def madd_def matmul_def)
  have l0: "0 < length (X ! t)"
    using assms(5-8) by (simp add: row vsub_def vmul_def vadd_def)
  have "X ! t ! 0 = NaN"
    using assms(5-9)
    by (simp add: row vsub_def vmul_def vadd_def fadd_nan_right fmul_nan_right fsub_nan)
  with l0 have "NaN \<in> set (X ! t)"
    by (metis nth_mem)
  moreover have "X ! t \<in> set X"
    using lt by simp
  ultimately have "NaN \<in> set (concat X)"
    by auto
  then have "np_sum X = NaN"
    unfolding np_sum_def by (rule fsum_nan)
  then show ?thesis
    by (simp add: lowerbound_def X_def foldl_fadd_nan)
qed




lemma finite_list: "list_all isfinite xs \<Longrightarrow> \<exists>rs. xs = map Fin rs"
proof (induction xs)
  case Nil
  then show ?case by simp
next
  case (Cons x xs)
  then obtain rs where "xs = map Fin rs"
    by auto
  moreover from Cons.prems obtain r where "x = Fin r"
    by (cases x) simp_all
  ultimately have "x # xs = map Fin (r # rs)"
    by simp
  then show ?case
    by (rule exI)
qed

lemma fsum_Fin: "fsum (map Fin rs) = Fin (sum_list rs)"
  by (induction rs) (simp_all add: fsum_def)







lemma foldl_set2_shape:
  "length (foldl (\<lambda>r (row, c). set2 r row c (f row c)) R ps) = length R
   \<and> (\<forall>t. length (foldl (\<lambda>r (row, c). set2 r row c (f row c)) R ps ! t) = length (R ! t))"
proof (induction ps arbitrary: R)
  case Nil
  then show ?case by simp
next
  case (Cons q ps)
  obtain i j where q: "q = (i, j)"
    by (cases q)
  have a: "length (set2 R i j (f i j)) = length R"
    by (simp add: set2_def)
  have b: "length (set2 R i j (f i j) ! t) = length (R ! t)" for t
    by (cases "t = i"; cases "i < length R") (simp_all add: set2_def list_update_beyond)
  show ?case
    using Cons.IH [of "set2 R i j (f i j)"] a b by (simp add: q)
qed

lemma updaterate_shape:
  "length (updaterate C st rows cols) = length (rate st)"
  "length (updaterate C st rows cols ! t) = length (rate st ! t)"
  unfolding updaterate_def by (simp_all add: foldl_set2_shape)

lemma is_mat_row: "is_mat r c m \<Longrightarrow> t < r \<Longrightarrow> length (m ! t) = c"
  by (auto simp: is_mat_def list_all_length)

lemma is_mat_ncols: "is_mat r c m \<Longrightarrow> 0 < r \<Longrightarrow> ncols m = c"
  by (cases m) (auto simp: is_mat_def ncols_def)





subsection \<open>The posterior mean is centred\<close>





subsection \<open>The loadings keep their norm\<close>

lemma sum_list_squares_nonneg: "(0 :: real) \<le> sum_list (map (\<lambda>x. x * x) rs)"
  by (induction rs) simp_all

lemma sum_list_squares_zero:
  "sum_list (map (\<lambda>x. x * x) rs) = (0 :: real) \<Longrightarrow> \<forall>x \<in> set rs. x = 0"
proof (induction rs)
  case Nil
  then show ?case by simp
next
  case (Cons r rs)
  have "0 \<le> r * r" "0 \<le> sum_list (map (\<lambda>x. x * x) rs)"
    by (simp_all add: sum_list_squares_nonneg)
  moreover from Cons.prems have "r * r + sum_list (map (\<lambda>x. x * x) rs) = 0"
    by simp
  ultimately have "r * r = 0" "sum_list (map (\<lambda>x. x * x) rs) = 0"
    by linarith+
  with Cons.IH show ?case
    by simp
qed

lemma sum_list_squares_scaled:
  "sum_list (map (\<lambda>x. x * x / (d * d)) rs) = sum_list (map (\<lambda>x. x * x) rs) / (d * d :: real)"
  by (induction rs) (simp_all add: add_divide_distrib)

lemma vsq_Fin: "vsq (map Fin rs) = map Fin (map (\<lambda>x. x * x) rs)"
  by (simp add: vsq_def)

lemma linalg_norm_Fin:
  "linalg_norm (map Fin rs) = Inr (Fin (sqrt (sum_list (map (\<lambda>x. x * x) rs))))"
proof -
  have "0 \<le> sum_list (map (\<lambda>x. x * x) rs)"
    by (rule sum_list_squares_nonneg)
  moreover have "list_all isfinite (map Fin rs)"
    by (simp add: list_all_iff)
  ultimately show ?thesis
    by (simp only: linalg_norm_def vsq_Fin fsum_Fin) simp
qed

lemma rescaled_norm:
  assumes "0 < c" "0 < sum_list (map (\<lambda>x. x * x) rs)"
  shows "linalg_norm (vdivs (map Fin rs)
           (fdiv (Fin (sqrt (sum_list (map (\<lambda>x. x * x) rs)))) (Fin c))) = Inr (Fin c)"
proof -
  define q where "q = sum_list (map (\<lambda>x. x * x) rs)"
  define d where "d = sqrt q / c"
  have d: "d \<noteq> 0" "d * d = q / (c * c)"
    using assms by (simp_all add: d_def q_def)
  have "vdivs (map Fin rs) (fdiv (Fin (sqrt q)) (Fin c)) = map Fin (map (\<lambda>x. x / d) rs)"
    using assms(1) d(1) by (simp add: vdivs_def d_def)
  then have "linalg_norm (vdivs (map Fin rs) (fdiv (Fin (sqrt q)) (Fin c)))
      = Inr (Fin (sqrt (sum_list (map (\<lambda>x. x * x) (map (\<lambda>x. x / d) rs)))))"
    by (simp only: linalg_norm_Fin)
  also have "sum_list (map (\<lambda>x. x * x) (map (\<lambda>x. x / d) rs)) = q / (d * d)"
    by (simp add: o_def sum_list_squares_scaled q_def)
  also have "q / (d * d) = c * c"
    using assms by (simp add: d(2) q_def)
  also have "sqrt (c * c) = c"
    using assms(1) by simp
  finally show ?thesis
    by (simp add: q_def)
qed

lemma zero_norm_nan:
  assumes "0 < c" "sum_list (map (\<lambda>x. x * x) rs) = 0"
  shows "vdivs (map Fin rs)
           (fdiv (Fin (sqrt (sum_list (map (\<lambda>x. x * x) rs)))) (Fin c)) = map (\<lambda>x. NaN) rs"
proof -
  have "\<forall>x \<in> set rs. x = 0"
    using assms(2) by (rule sum_list_squares_zero)
  then show ?thesis
    using assms by (simp add: vdivs_def)
qed

lemma ncols_update:
  assumes "l < length m" "length v = ncols m"
  shows "ncols (m[l := v]) = ncols m"
  using assms by (cases m; cases l) (simp_all add: ncols_def)

lemma alpha_try_norm:
  assumes "alpha_try C l delta st = Inr st1"
    and "shapes C st" and "l < dimL C" and "length delta = dimN C"
    and "normofalpha (cargs C) = Fin c" and "0 < c"
    and "\<not> isnan (lb_of E C st1)"
  shows "linalg_norm (alpha st1 ! l) = Inr (Fin c)"
proof -
  define moved where "moved = vadd (alpha st ! l) delta"
  from assms(2) have sh:
    "0 < dimT C" "0 < dimN C"
    "is_mat (dimT C) (dimN C) (spike (cargs C))"
    "is_mat (dimT C) (length (beta st)) (regressor C)"
    "beta st \<noteq> []" "is_mat (length (beta st)) (dimN C) (beta st)"
    "is_mat (dimL C) (dimN C) (alpha st)"
    "is_mat (dimT C) (dimL C) (post_mean st)"
    "is_mat (dimT C) (dimN C) (rate st)"
    by (simp_all add: shapes_def)
  have la: "length (alpha st) = dimL C"
    using sh(7) by (simp add: is_mat_def)
  have lm: "length moved = dimN C"
    using is_mat_row [OF sh(7) assms(3)] assms(4) by (simp add: moved_def vadd_def)
  from assms(1) obtain nrm where nrm: "linalg_norm moved = Inr nrm"
    by (cases "linalg_norm moved") (simp_all add: alpha_try_def Let_def ebind_def moved_def)
  then have "list_all isfinite moved"
    by (simp add: linalg_norm_def split: if_splits)
  then obtain rs where rs: "moved = map Fin rs"
    using finite_list by blast
  define q where "q = sum_list (map (\<lambda>x. x * x) rs)"
  have nq: "nrm = Fin (sqrt q)"
    using nrm by (simp add: rs linalg_norm_Fin q_def)
  define row where "row = vdivs moved (fdiv nrm (Fin c))"
  have a1: "alpha st1 = (alpha st)[l := row]"
    using assms(1) nrm
    by (auto simp: alpha_try_def Let_def ebind_def moved_def row_def assms(5))
  have r1: "alpha st1 ! l = row"
    using la assms(3) by (simp add: a1)
  have q0: "0 \<le> q"
    unfolding q_def by (rule sum_list_squares_nonneg)
  show ?thesis
  proof (cases "q = 0")
    case False
    with q0 have "0 < q"
      by simp
    then show ?thesis
      using rescaled_norm [OF assms(6), of rs] by (simp add: r1 row_def rs nq q_def)
  next
    case True
    then have row_nan: "row = map (\<lambda>x. NaN) rs"
      using zero_norm_nan [OF assms(6), of rs] by (simp add: row_def rs nq q_def)
    have lr: "length row = dimN C"
      using lm by (simp add: row_nan rs)
    then have r0: "row ! 0 = NaN"
      using sh(2) by (simp add: row_nan)
    have others: "beta st1 = beta st" "post_mean st1 = post_mean st"
      "length (rate st1) = dimT C" "length (rate st1 ! 0) = dimN C"
      using assms(1) nrm sh(9) is_mat_row [OF sh(9) sh(1)]
      by (auto simp: alpha_try_def Let_def ebind_def moved_def updaterate_shape is_mat_def)
    have nb: "0 < ncols (beta st)"
      using sh(5) sh(6) sh(2) by (cases "beta st") (auto simp: ncols_def is_mat_def)
    have na0: "ncols (alpha st) = dimN C"
      using is_mat_ncols [OF sh(7)] assms(3) by simp
    have na: "0 < ncols (alpha st1)"
      using ncols_update [of l "alpha st" row] la assms(3) lr na0 sh(2) by (simp add: a1)
    have lp: "length (post_mean st ! 0) = dimL C"
      using is_mat_row [OF sh(8) sh(1)] .
    have d: "dot (post_mean st1 ! 0) (col (alpha st1) 0) = NaN"
      using lp la assms(3) r0
      by (intro dot_nan [of l]) (simp_all add: others a1 col_def fmul_nan_right)
    have "lowerbound E (spike (cargs C)) (beta st1) (alpha st1) (prior_mean (cargs C))
          (prior_cov st1) (prior_inv st1) (post_mean st1) (post_cov st1) (regressor C)
          (rate st1) = NaN"
    proof (rule lowerbound_nan [of 0])
      show "0 < length (spike (cargs C))"
        using sh(1) by (simp add: dimT_def)
      show "0 < length (regressor C)"
        using sh(1) sh(4) by (simp add: is_mat_def)
      show "0 < length (post_mean st1)"
        using sh(1) sh(8) others by (simp add: is_mat_def)
      show "0 < length (rate st1)"
        using sh(1) others by simp
      show "0 < length (spike (cargs C) ! 0)"
        using is_mat_row [OF sh(3) sh(1)] sh(2) by simp
      show "0 < length (rate st1 ! 0)"
        using others sh(2) by simp
      show "0 < ncols (beta st1)" "0 < ncols (alpha st1)"
        using nb na others by simp_all
      show "dot (post_mean st1 ! 0) (col (alpha st1) 0) = NaN"
        by (rule d)
    qed
    then have "lb_of E C st1 = NaN"
      by (simp add: lb_of_def)
    with assms(7) show ?thesis
      by (simp add: isnan_def)
  qed
qed

lemma alpha_step_accept:
  assumes "alpha_step E C it l grad H sol st = Inr st'"
    "alpha_accepted E C it l sol st"
  obtains st1 where "alpha_try C l (vscale (stepsize_alpha st ! l) sol) st = Inr st1"
    "alpha st' = alpha st1" "\<not> isnan (lb_of E C st1)"
  using assms
  by (auto simp: alpha_step_def alpha_accepted_def Let_def ebind_def
      split: sum.splits if_splits)

lemma sqrt100: "sqrt 100 = 10"
  by (rule real_sqrt_unique) simp_all

lemma w5:
  "shapes ctx_w5 st_w5" "0 < dimL ctx_w5" "length [Fin 3, Fin 4] = dimN ctx_w5"
  "normofalpha (cargs ctx_w5) = Fin 5"
  "alpha st_w5 = [[Fin 3, Fin 4]]" "stepsize_alpha st_w5 = [Fin 1, Fin 1]"
  "alpha_accepted env_small ctx_w5 1 0 [Fin 3, Fin 4] st_w5"
  "\<exists>st'. alpha_step env_small ctx_w5 1 0 (grad_a ctx_w5 st_w5 0) (neg_hess_a ctx_w5 st_w5 0)
            [Fin 3, Fin 4] st_w5 = Inr st'"
  by (simp_all add: ctx_w5_def st_w5_def ctx_small_def args_base_def
      init_state_def shapes_def is_mat_def alpha_accepted_def block_defs step_defs
      small_defs vec_defs Let_def upt_Suc0 numeral_2_eq_2 finfo_max_def finfo_eps_def
      sqrt100)

text \<open>
  C5. After every accepted step of the loadings of latent \<open>l\<close>, the row \<open>alpha[l, :]\<close>
  has the Euclidean norm \<open>normofalpha\<close>: the row is divided by \<open>norm / normofalpha\<close>
  right after the step is added, before the rate and the bound are recomputed. A moved
  row of norm zero becomes NaN by that division, the bound is then NaN and the step is
  rejected. The arrays have the shapes of the docstring, the step has one entry per
  channel and the target norm is positive. Finite arithmetic is exact, so the norm is
  exactly the target.
\<close>

theorem accepted_alpha_has_target_norm:
  assumes "alpha_step E C it l grad H sol st = Inr st'"
    and "alpha_accepted E C it l sol st"
    and "shapes C st" and "l < dimL C" and "length sol = dimN C"
    and "normofalpha (cargs C) = Fin c" and "0 < c"
  shows "linalg_norm (alpha st' ! l) = Inr (Fin c)
    \<and> (\<exists>nrm. linalg_norm (vadd (alpha st ! l) (vscale (stepsize_alpha st ! l) sol)) = Inr nrm
          \<and> alpha st' = (alpha st)[l := vdivs (vadd (alpha st ! l)
                                               (vscale (stepsize_alpha st ! l) sol))
                                         (fdiv nrm (Fin c))])"
proof -
  from assms(1,2) obtain st1 where
    t: "alpha_try C l (vscale (stepsize_alpha st ! l) sol) st = Inr st1" and
    a: "alpha st' = alpha st1" and n: "\<not> isnan (lb_of E C st1)"
    by (rule alpha_step_accept)
  have "length (vscale (stepsize_alpha st ! l) sol) = dimN C"
    using assms(5) by (simp add: vscale_def)
  from alpha_try_norm [OF t assms(3,4) this assms(6,7) n] a
  have "linalg_norm (alpha st' ! l) = Inr (Fin c)"
    by simp
  moreover from t a
  have "\<exists>nrm. linalg_norm (vadd (alpha st ! l) (vscale (stepsize_alpha st ! l) sol)) = Inr nrm
          \<and> alpha st' = (alpha st)[l := vdivs (vadd (alpha st ! l)
                                               (vscale (stepsize_alpha st ! l) sol))
                                         (fdiv nrm (Fin c))]"
    by (cases "linalg_norm (vadd (alpha st ! l) (vscale (stepsize_alpha st ! l) sol))")
      (auto simp: alpha_try_def Let_def ebind_def assms(6))
  ultimately show ?thesis
    by (rule conjI)
qed

text \<open>A step that moves the row \<open>(3, 4)\<close> to \<open>(6, 8)\<close>: the division brings it back to
  \<open>(3, 4)\<close>, of norm 5, and the bound is unchanged.\<close>

theorem accepted_alpha_has_target_norm_witness:
  "shapes ctx_w5 st_w5 \<and> 0 < dimL ctx_w5 \<and> length [Fin 3, Fin 4] = dimN ctx_w5
   \<and> normofalpha (cargs ctx_w5) = Fin 5 \<and> (0 :: real) < 5
   \<and> alpha_accepted env_small ctx_w5 1 0 [Fin 3, Fin 4] st_w5
   \<and> (\<exists>st'. alpha_step env_small ctx_w5 1 0 (grad_a ctx_w5 st_w5 0)
                (neg_hess_a ctx_w5 st_w5 0) [Fin 3, Fin 4] st_w5 = Inr st'
         \<and> linalg_norm (alpha st' ! 0) = Inr (Fin 5))"
proof -
  from w5(8) obtain st' where
    s: "alpha_step env_small ctx_w5 1 0 (grad_a ctx_w5 st_w5 0) (neg_hess_a ctx_w5 st_w5 0)
          [Fin 3, Fin 4] st_w5 = Inr st'"
    by blast
  have p: "(0 :: real) < 5"
    by simp
  from accepted_alpha_has_target_norm [OF s w5(7) w5(1) w5(2) w5(3) w5(4) p]
  have "linalg_norm (alpha st' ! 0) = Inr (Fin 5)"
    by blast
  with s w5(1,2,3,4,7) p show ?thesis
    by blast
qed

end
